theory Spec2Isabelle
  imports Main "HOL-Library.Word" "HOL-Library.Char_ord"
begin

unbundle bit_operations_syntax

chapter \<open>The embedding\<close>

section \<open>Common values: errors, numbers as text\<close>

type_synonym u64 = "64 word"

text \<open>
  Go \<^verbatim>\<open>error\<close> values. \<open>ErrorsNew\<close> is a value made by \<^verbatim>\<open>errors.New\<close>,
  \<open>FmtErrorf\<close> one made by \<^verbatim>\<open>fmt.Errorf\<close> (it holds the formatted message),
  \<open>PathError\<close> is \<^verbatim>\<open>&os.PathError{Op, Path, Err}\<close>, \<open>ErrExist\<close> and \<open>ErrNotExist\<close> are
  the sentinels of package \<^verbatim>\<open>os\<close>, \<open>ExeclibError\<close> is a \<^verbatim>\<open>*execlib.Error\<close> with its message
  and its \<^verbatim>\<open>Output\<close> field, and \<open>Foreign\<close> is any error value made outside the files
  modelled here (by depgraph, an io.Writer, capnp, the operating system), known by its message.
\<close>

datatype error =
    ErrorsNew string
  | FmtErrorf string
  | PathError string string error
  | ErrExist
  | ErrNotExist
  | ExeclibError string string
  | Foreign string

fun err_Error :: "error \<Rightarrow> string" where
  "err_Error (ErrorsNew m) = m"
| "err_Error (FmtErrorf m) = m"
| "err_Error (PathError opn path e) = opn @ '' '' @ path @ '': '' @ err_Error e"
| "err_Error ErrExist = ''file already exists''"
| "err_Error ErrNotExist = ''file does not exist''"
| "err_Error (ExeclibError m out) = m"
| "err_Error (Foreign m) = m"

definition digit_char :: "nat \<Rightarrow> char" where
  "digit_char d = char_of (48 + d)"

text \<open>\<^verbatim>\<open>strconv.FormatUint(a, base)\<close> for a base from 2 to 10, and the \<^verbatim>\<open>%d\<close> verb.\<close>

function format_base :: "nat \<Rightarrow> nat \<Rightarrow> string" where
  "format_base b n =
     (if n < b \<or> b < 2 then [digit_char n]
      else format_base b (n div b) @ [digit_char (n mod b)])"
  by pat_completeness auto
termination
  by (relation "measure snd") auto

declare format_base.simps [simp del]

definition FormatUint :: "nat \<Rightarrow> nat \<Rightarrow> string" where
  "FormatUint n b = format_base b n"

definition FormatInt10 :: "int \<Rightarrow> string" where
  "FormatInt10 i = (if i < 0 then CHR ''-'' # FormatUint (nat (- i)) 10 else FormatUint (nat i) 10)"

text \<open>Padding on the left to a width, as the verbs \<^verbatim>\<open>%5s\<close> and \<^verbatim>\<open>%4o\<close> do.\<close>

definition pad_left :: "nat \<Rightarrow> string \<Rightarrow> string" where
  "pad_left width s = replicate (width - length s) CHR '' '' @ s"

section \<open>shlib: the shell script writer\<close>

subsection \<open>Quoting\<close>

definition isShellSafe :: "char \<Rightarrow> bool" where
  "isShellSafe b \<longleftrightarrow>
     CHR ''A'' \<le> b \<and> b \<le> CHR ''Z'' \<or> CHR ''a'' \<le> b \<and> b \<le> CHR ''z'' \<or>
     CHR ''0'' \<le> b \<and> b \<le> CHR ''9'' \<or> b = CHR ''-'' \<or> b = CHR ''_'' \<or> b = CHR ''/''"

text \<open>The first loop of \<^verbatim>\<open>shellQuote\<close>: \<^verbatim>\<open>safe\<close> becomes false at the first unsafe byte.\<close>

fun all_safe :: "string \<Rightarrow> bool" where
  "all_safe [] = True"
| "all_safe (b # bs) = (if \<not> isShellSafe b then False else all_safe bs)"

text \<open>The second loop: \<open>buf\<close> grows by one byte, or by four for a single quote.\<close>

fun quote_loop :: "string \<Rightarrow> string \<Rightarrow> string" where
  "quote_loop buf [] = buf"
| "quote_loop buf (b # bs) =
     (if b = CHR 0x27 then quote_loop (buf @ [CHR 0x27, CHR 0x5C, CHR 0x27, CHR 0x27]) bs
      else quote_loop (buf @ [b]) bs)"

definition shellQuote :: "string \<Rightarrow> string" where
  "shellQuote s =
     (if s = [] then [CHR 0x27, CHR 0x27]
      else if all_safe s then s
      else quote_loop [CHR 0x27] s @ [CHR 0x27])"

text \<open>
  What the claim about quoting compares with: the value bash gives to a word of its input
  that stands as an argument, by its manual and not by anything in the source. Bash drops every NUL byte as it reads
  its input. In what is left, outside quotes, a single quote opens a quoted part, and a
  backslash keeps the next byte as it is (and vanishes together with a newline). The blanks
  and metacharacters, the quoting characters and the characters that start an expansion, a
  pattern, a comment, a negation or an assignment (\<open>bash_special\<close>) have a meaning of their
  own, and a word that holds one of them unquoted is given no value here; every other byte
  stands for itself. Inside single quotes every byte up to the closing quote stands for
  itself; a quote left open gives no value.
\<close>

definition bash_input :: "string \<Rightarrow> string" where
  "bash_input s = filter (\<lambda>c. c \<noteq> CHR 0x00) s"

definition bash_special :: "char \<Rightarrow> bool" where
  "bash_special c \<longleftrightarrow>
     c \<in> set ([CHR 0x20, CHR 0x09, CHR 0x0A, CHR 0x27, CHR 0x22, CHR 0x5C, CHR 0x60]
               @ ''|&;()<>$*?[]~{}#!='')"

fun bash_unquoted :: "string \<Rightarrow> string option"
  and bash_squoted :: "string \<Rightarrow> string option" where
  "bash_unquoted [] = Some []"
| "bash_unquoted [c] =
     (if c = CHR 0x27 then bash_squoted []
      else if c = CHR 0x5C then None
      else if bash_special c then None else Some [c])"
| "bash_unquoted (c # d # ds) =
     (if c = CHR 0x27 then bash_squoted (d # ds)
      else if c = CHR 0x5C then
        (if d = CHR 0x0A then bash_unquoted ds else map_option ((#) d) (bash_unquoted ds))
      else if bash_special c then None
      else map_option ((#) c) (bash_unquoted (d # ds)))"
| "bash_squoted [] = None"
| "bash_squoted (c # cs) =
     (if c = CHR 0x27 then bash_unquoted cs else map_option ((#) c) (bash_squoted cs))"

definition bash_word :: "string \<Rightarrow> string option" where
  "bash_word s = bash_unquoted (bash_input s)"

text \<open>The claim's wording of the second case: the bytes in \<^verbatim>\<open>[A-Za-z0-9-_/]\<close>.\<close>

definition safe_bytes :: string where
  "safe_bytes = ''ABCDEFGHIJKLMNOPQRSTUVWXYZabcdefghijklmnopqrstuvwxyz0123456789-_/''"

definition safe_class :: "char \<Rightarrow> bool" where
  "safe_class c \<longleftrightarrow> c \<in> set safe_bytes"

text \<open>The claim's wording of the third case: every single quote replaced by four bytes.\<close>

definition escape_quotes :: "string \<Rightarrow> string" where
  "escape_quotes s =
     concat (map (\<lambda>c. if c = CHR 0x27 then [CHR 0x27, CHR 0x5C, CHR 0x27, CHR 0x27] else [c]) s)"

subsection \<open>The catalog as \<^verbatim>\<open>WriteScript\<close> reads it\<close>

text \<open>
  Package catalog is generated code outside these files; a resource is modelled by the
  results of the accessors that \<^verbatim>\<open>gen.resource\<close> calls. \<open>File_Which_other\<close> holds the
  name that \<^verbatim>\<open>%v\<close> prints for a directive that is neither plain nor directory.
\<close>

datatype File_Which = File_Which_plain | File_Which_directory | File_Which_other string

record Plain =
  HasContent :: bool
  Content :: string

record File =
  Path :: "error + string"
  Which :: File_Which
  Plain :: Plain

record Resource =
  ID :: u64
  Comment :: string
  File :: File

subsection \<open>The generator\<close>

text \<open>
  What \<^verbatim>\<open>WriteScript\<close> uses and these files do not hold: the dependency graph (package
  depgraph), the \<^verbatim>\<open>io.Writer\<close> it is given, and the chunks in which a base64 encoder hands
  its output to the writer below it.
\<close>

record ('g, 'w) ScriptEnv =
  depgraph_New :: "Resource list \<Rightarrow> error + 'g"
  graph_Done :: "'g \<Rightarrow> bool"
  graph_Ready :: "'g \<Rightarrow> u64 list"
  graph_Resource :: "'g \<Rightarrow> u64 \<Rightarrow> Resource"
  graph_Mark :: "'g \<Rightarrow> u64 \<Rightarrow> 'g"
  w_Write :: "'w \<Rightarrow> string \<Rightarrow> (nat \<times> error option) \<times> 'w"
  base64_chunks :: "string \<Rightarrow> string list"

record 'w errWriter =
  w :: 'w
  err :: "error option"

record 'w gen =
  ew :: "'w errWriter"
  indent :: int

definition errWriter_Write ::
  "('g, 'w) ScriptEnv \<Rightarrow> 'w errWriter \<Rightarrow> string \<Rightarrow> (nat \<times> error option) \<times> 'w errWriter" where
  "errWriter_Write E x p =
     (case err x of
        Some e \<Rightarrow> ((0, Some e), x)
      | None \<Rightarrow> (case w_Write E (w x) p of ((n, e), w') \<Rightarrow> ((n, e), x\<lparr>w := w', err := e\<rparr>)))"

text \<open>\<^verbatim>\<open>WriteString\<close> hands the bytes of the string to the same writer.\<close>

definition errWriter_WriteString ::
  "('g, 'w) ScriptEnv \<Rightarrow> 'w errWriter \<Rightarrow> string \<Rightarrow> (nat \<times> error option) \<times> 'w errWriter" where
  "errWriter_WriteString E x s = errWriter_Write E x s"

text \<open>The arguments of \<^verbatim>\<open>gen.p\<close>: a string to quote, a piece of script, or a number.\<close>

datatype arg = Str string | Script string | U64 u64

fun render_arg :: "arg \<Rightarrow> string" where
  "render_arg (Str a) = shellQuote a"
| "render_arg (Script a) = a"
| "render_arg (U64 a) = FormatUint (unat a) 10"

definition gen_p :: "('g, 'w) ScriptEnv \<Rightarrow> 'w gen \<Rightarrow> arg list \<Rightarrow> 'w gen" where
  "gen_p E g args =
     (if args = [] then g\<lparr>ew := snd (errWriter_Write E (ew g) [CHR 0x0A])\<rparr>
      else
        let buf = concat (replicate (nat (indent g)) ''  '') @ concat (map render_arg args)
                    @ [CHR 0x0A]
        in g\<lparr>ew := snd (errWriter_Write E (ew g) buf)\<rparr>)"

definition gen_in :: "'w gen \<Rightarrow> 'w gen" where
  "gen_in g = g\<lparr>indent := indent g + 1\<rparr>"

definition gen_out :: "'w gen \<Rightarrow> 'w gen" where
  "gen_out g = g\<lparr>indent := indent g - 1\<rparr>"

text \<open>The base64 encoder writes its chunks to the \<open>errWriter\<close>, one after the other.\<close>

fun write_chunks :: "('g, 'w) ScriptEnv \<Rightarrow> 'w errWriter \<Rightarrow> string list \<Rightarrow> 'w errWriter" where
  "write_chunks E x [] = x"
| "write_chunks E x (c # cs) = write_chunks E (snd (errWriter_Write E x c)) cs"

definition gen_resource ::
  "('g, 'w) ScriptEnv \<Rightarrow> 'w gen \<Rightarrow> Resource \<Rightarrow> error option \<times> 'w gen" where
  "gen_resource E g0 r =
     (let g1 = gen_p E g0 [];
          g2 = (if Comment r \<noteq> [] then gen_p E g1 [Script ''# '', Script (Comment r)]
                else gen_p E g1 [Script ''# Resource ID='', U64 (ID r)]);
          f = File r
      in case Path f of
           Inl e \<Rightarrow> (Some (FmtErrorf (''reading file path: '' @ err_Error e)), g2)
         | Inr path \<Rightarrow>
             if path = [] then (Some (ErrorsNew ''file path is empty''), g2)
             else (case Which f of
                 File_Which_plain \<Rightarrow>
                   if HasContent (Plain f) then
                     let g3 = gen_p E g2 [Script ''base64 -d > '', Str path, Script '' <<!EOF!''];
                         x1 = write_chunks E (ew g3) (base64_chunks E (Content (Plain f)));
                         x2 = snd (errWriter_WriteString E x1
                                ([CHR 0x0A] @ ''!EOF!'' @ [CHR 0x0A]))
                     in (None, g3\<lparr>ew := x2\<rparr>)
                   else (None, g2)
               | File_Which_directory \<Rightarrow>
                   let g3 = gen_p E g2 [Script (''if ['' @ ''[ ! -d ''), Str path,
                                        Script ('' ]'' @ '']; then'')];
                       g4 = gen_in g3;
                       g5 = gen_p E g4 [Script ''mkdir '', Str path];
                       g6 = gen_out g5;
                       g7 = gen_p E g6 [Script ''fi'']
                   in (None, g7)
               | File_Which_other nm \<Rightarrow>
                   (Some (FmtErrorf (''unsupported file directive '' @ nm)), g2)))"

text \<open>
  The inner loop of \<^verbatim>\<open>WriteScript\<close>, over the copy of the ready list: it stops at the first
  resource that fails, and marks every resource it has written.
\<close>

fun ready_loop ::
  "('g, 'w) ScriptEnv \<Rightarrow> 'w gen \<Rightarrow> 'g \<Rightarrow> u64 list \<Rightarrow> error option \<times> 'w gen \<times> 'g" where
  "ready_loop E g graph [] = (None, g, graph)"
| "ready_loop E g graph (i # ids) =
     (case gen_resource E g (graph_Resource E graph i) of
        (Some e, g') \<Rightarrow>
          (Some (FmtErrorf (''resource ID='' @ FormatUint (unat i) 10 @ '': '' @ err_Error e)),
           g', graph)
      | (None, g') \<Rightarrow> ready_loop E g' (graph_Mark E graph i) ids)"

text \<open>
  The outer loop. Nothing in \<^verbatim>\<open>WriteScript\<close> bounds it: whether it ends is up to the graph.
  The result is \<open>None\<close> when it does not end, and otherwise the error of an early return
  (or none when the loop ran to its end) with the generator and the graph as they then are.
\<close>

partial_function (option) drive ::
  "('g, 'w) ScriptEnv \<Rightarrow> 'w gen \<Rightarrow> 'g \<Rightarrow> (error option \<times> 'w gen \<times> 'g) option" where
  "drive E g graph =
     (if err (ew g) = None \<and> \<not> graph_Done E graph then
        (let ready = graph_Ready E graph in
         if length ready = 0 then
           Some (Some (ErrorsNew ''graph not done, but has nothing to do''), g, graph)
         else (case ready_loop E g graph ready of
             (Some e, g', graph') \<Rightarrow> Some (Some e, g', graph')
           | (None, g', graph') \<Rightarrow> drive E g' graph'))
      else Some (None, g, graph))"

text \<open>
  The lines of \<^verbatim>\<open>WriteScript\<close> after the loop, given how the loop ended: an early return
  inside the loop is the result; otherwise the script is closed and the writer's error, if
  any, is returned. The result holds the writer as it is left.
\<close>

definition WriteScript_end ::
  "('g, 'w) ScriptEnv \<Rightarrow> (error option \<times> 'w gen \<times> 'g) option \<Rightarrow> (error option \<times> 'w) option" where
  "WriteScript_end E r =
     (case r of
        None \<Rightarrow> None
      | Some (Some e, g5, graph') \<Rightarrow> Some (Some e, w (ew g5))
      | Some (None, g5, graph') \<Rightarrow>
          let g6 = gen_out g5;
              g7 = gen_p E g6 [Script ''}''];
              g8 = gen_p E g7 [Script (''_ '' @ [CHR 0x22] @ ''$0'' @ [CHR 0x22] @ '' ''
                                 @ [CHR 0x22] @ ''$@'' @ [CHR 0x22])]
          in Some (err (ew g8), w (ew g8)))"

text \<open>The lines before the loop: the generator as the loop first finds it.\<close>

definition WriteScript_begin :: "('g, 'w) ScriptEnv \<Rightarrow> 'w \<Rightarrow> 'w gen" where
  "WriteScript_begin E out =
     (let g0 = \<lparr>ew = \<lparr>w = out, err = None\<rparr>, indent = 0\<rparr>;
          g1 = gen_p E g0 [Script ''#!/bin/bash''];
          g2 = gen_p E g1 [Script ''_() {''];
          g3 = gen_in g2;
          g4 = gen_p E g3 [Script ''set -e'']
      in g4)"

text \<open>
  \<^verbatim>\<open>WriteScript\<close>: the error it returns (or none) and the writer as it leaves it;
  \<open>None\<close> when the loop does not end. The error of \<^verbatim>\<open>c.Resources()\<close> is dropped by the
  source, so the catalog is the list of its resources. An error of \<^verbatim>\<open>depgraph.New\<close> is
  returned as it is.
\<close>

definition WriteScript ::
  "('g, 'w) ScriptEnv \<Rightarrow> 'w \<Rightarrow> Resource list \<Rightarrow> (error option \<times> 'w) option" where
  "WriteScript E out res =
     (case depgraph_New E res of
        Inl e \<Rightarrow> Some (Some e, out)
      | Inr graph \<Rightarrow> WriteScript_end E (drive E (WriteScript_begin E out) graph))"

section \<open>exec: system backends, logger and front end\<close>

subsection \<open>The system interface\<close>

text \<open>
  \<^verbatim>\<open>os.FileMode\<close> is a 32-bit word; the constants are those of package \<^verbatim>\<open>os\<close>.
  \<^verbatim>\<open>system.UID\<close> and \<^verbatim>\<open>system.GID\<close> are numbers that \<^verbatim>\<open>%d\<close> prints in decimal.
  Of \<^verbatim>\<open>system.Cmd\<close> the source reads the field \<^verbatim>\<open>Args\<close> only.
\<close>

type_synonym FileMode = "32 word"
type_synonym UID = int
type_synonym GID = int

definition ModePerm :: FileMode where "ModePerm = 511"
definition ModeSticky :: FileMode where "ModeSticky = push_bit 20 1"
definition ModeSetgid :: FileMode where "ModeSetgid = push_bit 22 1"
definition ModeSetuid :: FileMode where "ModeSetuid = push_bit 23 1"

record Cmd =
  Args :: "string list"

text \<open>
  Interface \<^verbatim>\<open>system.System\<close>, with the methods that \<open>simulatedSystem\<close> implements. An
  implementation acts on a state \<open>'s\<close>; every method returns its result and the state it
  leaves. The context argument only carries cancellation and is left out. \<open>'fi\<close> is
  \<^verbatim>\<open>os.FileInfo\<close>, \<open>'fw\<close> a \<^verbatim>\<open>system.FileWriter\<close>, \<open>'fh\<close> a \<^verbatim>\<open>system.File\<close>.
\<close>

record ('s, 'fi, 'fw, 'fh) System =
  Lstat :: "string \<Rightarrow> 's \<Rightarrow> (error + 'fi) \<times> 's"
  Readlink :: "string \<Rightarrow> 's \<Rightarrow> (error + string) \<times> 's"
  Mkdir :: "string \<Rightarrow> FileMode \<Rightarrow> 's \<Rightarrow> error option \<times> 's"
  Remove :: "string \<Rightarrow> 's \<Rightarrow> error option \<times> 's"
  Symlink :: "string \<Rightarrow> string \<Rightarrow> 's \<Rightarrow> error option \<times> 's"
  CreateFile :: "string \<Rightarrow> FileMode \<Rightarrow> 's \<Rightarrow> (error + 'fw) \<times> 's"
  OpenFile :: "string \<Rightarrow> 's \<Rightarrow> (error + 'fh) \<times> 's"
  Chmod :: "string \<Rightarrow> FileMode \<Rightarrow> 's \<Rightarrow> error option \<times> 's"
  Chown :: "string \<Rightarrow> UID \<Rightarrow> GID \<Rightarrow> 's \<Rightarrow> error option \<times> 's"
  OwnerInfo :: "'fi \<Rightarrow> 's \<Rightarrow> (error + UID \<times> GID) \<times> 's"
  LookupUser :: "string \<Rightarrow> 's \<Rightarrow> (error + UID) \<times> 's"
  LookupGroup :: "string \<Rightarrow> 's \<Rightarrow> (error + GID) \<times> 's"
  Run :: "Cmd \<Rightarrow> 's \<Rightarrow> (string \<times> error option) \<times> 's"

subsection \<open>The live host\<close>

text \<open>
  What the simulated backend reads: the methods of \<^verbatim>\<open>system.Local\<close> it calls, and
  \<^verbatim>\<open>os.Lstat\<close>, \<^verbatim>\<open>os.Open\<close> and the methods of \<^verbatim>\<open>*os.File\<close>. None of them is in these
  files. Each one observes a host \<open>'h\<close>; an open file \<open>'osf\<close> has a state of its own (its
  offset, whether it is closed). \<^verbatim>\<open>Read(p)\<close> is given the length of \<^verbatim>\<open>p\<close> and returns the
  bytes it stored there.
\<close>

record ('h, 'fi, 'osf) Live =
  Local_Lstat :: "'h \<Rightarrow> string \<Rightarrow> error + 'fi"
  Local_Readlink :: "'h \<Rightarrow> string \<Rightarrow> error + string"
  Local_OwnerInfo :: "'h \<Rightarrow> 'fi \<Rightarrow> error + UID \<times> GID"
  Local_LookupUser :: "'h \<Rightarrow> string \<Rightarrow> error + UID"
  Local_LookupGroup :: "'h \<Rightarrow> string \<Rightarrow> error + GID"
  os_Lstat :: "'h \<Rightarrow> string \<Rightarrow> error + 'fi"
  os_Open :: "'h \<Rightarrow> string \<Rightarrow> error + 'osf"
  osf_Read :: "'h \<Rightarrow> 'osf \<Rightarrow> nat \<Rightarrow> (string \<times> error option) \<times> 'osf"
  osf_Seek :: "'h \<Rightarrow> 'osf \<Rightarrow> int \<Rightarrow> int \<Rightarrow> (int \<times> error option) \<times> 'osf"
  osf_Close :: "'h \<Rightarrow> 'osf \<Rightarrow> error option \<times> 'osf"

text \<open>
  \<^verbatim>\<open>os.IsNotExist\<close>: it looks below one \<^verbatim>\<open>PathError\<close> for the error that says the file
  does not exist.
\<close>

fun underlyingError :: "error \<Rightarrow> error" where
  "underlyingError (PathError opn path e) = e"
| "underlyingError e = e"

definition os_IsNotExist :: "error \<Rightarrow> bool" where
  "os_IsNotExist e \<longleftrightarrow> underlyingError e = ErrNotExist"

subsection \<open>The simulated backend\<close>

datatype discardWriter = discardWriter

definition discardWriter_Write :: "discardWriter \<Rightarrow> string \<Rightarrow> 'h \<Rightarrow> (nat \<times> error option) \<times> 'h" where
  "discardWriter_Write d p h = ((length p, None), h)"

definition discardWriter_Close :: "discardWriter \<Rightarrow> 'h \<Rightarrow> error option \<times> 'h" where
  "discardWriter_Close d h = (None, h)"

record 'osf readOnlyFile =
  f :: 'osf
  wrote :: bool

definition readOnlyFile_Read ::
  "('h, 'fi, 'osf) Live \<Rightarrow> 'osf readOnlyFile \<Rightarrow> nat \<Rightarrow> 'h
     \<Rightarrow> (string \<times> error option) \<times> 'osf readOnlyFile \<times> 'h" where
  "readOnlyFile_Read L ro len_p h =
     (if wrote ro then (([], Some (ErrorsNew ''read after simulated write'')), ro, h)
      else (case osf_Read L h (f ro) len_p of (r, f') \<Rightarrow> (r, ro\<lparr>f := f'\<rparr>, h)))"

definition readOnlyFile_Write ::
  "'osf readOnlyFile \<Rightarrow> string \<Rightarrow> 'h \<Rightarrow> (nat \<times> error option) \<times> 'osf readOnlyFile \<times> 'h" where
  "readOnlyFile_Write ro p h = ((length p, None), ro\<lparr>wrote := True\<rparr>, h)"

definition readOnlyFile_Seek ::
  "('h, 'fi, 'osf) Live \<Rightarrow> 'osf readOnlyFile \<Rightarrow> int \<Rightarrow> int \<Rightarrow> 'h
     \<Rightarrow> (int \<times> error option) \<times> 'osf readOnlyFile \<times> 'h" where
  "readOnlyFile_Seek L ro offset whence h =
     (if wrote ro then ((0, Some (ErrorsNew ''seek after simulated write'')), ro, h)
      else (case osf_Seek L h (f ro) offset whence of (r, f') \<Rightarrow> (r, ro\<lparr>f := f'\<rparr>, h)))"

definition readOnlyFile_Truncate ::
  "'osf readOnlyFile \<Rightarrow> int \<Rightarrow> 'h \<Rightarrow> error option \<times> 'osf readOnlyFile \<times> 'h" where
  "readOnlyFile_Truncate ro sz h = (None, ro\<lparr>wrote := True\<rparr>, h)"

definition readOnlyFile_Close ::
  "('h, 'fi, 'osf) Live \<Rightarrow> 'osf readOnlyFile \<Rightarrow> 'h \<Rightarrow> error option \<times> 'osf readOnlyFile \<times> 'h" where
  "readOnlyFile_Close L ro h = (case osf_Close L h (f ro) of (r, f') \<Rightarrow> (r, ro\<lparr>f := f'\<rparr>, h))"

definition simulatedSystem_Lstat ::
  "('h, 'fi, 'osf) Live \<Rightarrow> string \<Rightarrow> 'h \<Rightarrow> (error + 'fi) \<times> 'h" where
  "simulatedSystem_Lstat L path h = (Local_Lstat L h path, h)"

definition simulatedSystem_Readlink ::
  "('h, 'fi, 'osf) Live \<Rightarrow> string \<Rightarrow> 'h \<Rightarrow> (error + string) \<times> 'h" where
  "simulatedSystem_Readlink L path h = (Local_Readlink L h path, h)"

definition simulatedSystem_Mkdir :: "string \<Rightarrow> FileMode \<Rightarrow> 'h \<Rightarrow> error option \<times> 'h" where
  "simulatedSystem_Mkdir path mode h = (None, h)"

definition simulatedSystem_Remove :: "string \<Rightarrow> 'h \<Rightarrow> error option \<times> 'h" where
  "simulatedSystem_Remove path h = (None, h)"

definition simulatedSystem_Symlink :: "string \<Rightarrow> string \<Rightarrow> 'h \<Rightarrow> error option \<times> 'h" where
  "simulatedSystem_Symlink oldname newname h = (None, h)"

definition simulatedSystem_CreateFile ::
  "('h, 'fi, 'osf) Live \<Rightarrow> string \<Rightarrow> FileMode \<Rightarrow> 'h \<Rightarrow> (error + discardWriter) \<times> 'h" where
  "simulatedSystem_CreateFile L path mode h =
     (case os_Lstat L h path of
        Inr info \<Rightarrow> (Inl (PathError ''open'' path ErrExist), h)
      | Inl e \<Rightarrow> if \<not> os_IsNotExist e then (Inl e, h) else (Inr discardWriter, h))"

definition simulatedSystem_OpenFile ::
  "('h, 'fi, 'osf) Live \<Rightarrow> string \<Rightarrow> 'h \<Rightarrow> (error + 'osf readOnlyFile) \<times> 'h" where
  "simulatedSystem_OpenFile L path h =
     (case os_Open L h path of
        Inl e \<Rightarrow> (Inl e, h)
      | Inr osf \<Rightarrow> (Inr \<lparr>f = osf, wrote = False\<rparr>, h))"

definition simulatedSystem_Chmod :: "string \<Rightarrow> FileMode \<Rightarrow> 'h \<Rightarrow> error option \<times> 'h" where
  "simulatedSystem_Chmod path mode h = (None, h)"

definition simulatedSystem_Chown :: "string \<Rightarrow> UID \<Rightarrow> GID \<Rightarrow> 'h \<Rightarrow> error option \<times> 'h" where
  "simulatedSystem_Chown path uid gid h = (None, h)"

definition simulatedSystem_OwnerInfo ::
  "('h, 'fi, 'osf) Live \<Rightarrow> 'fi \<Rightarrow> 'h \<Rightarrow> (error + UID \<times> GID) \<times> 'h" where
  "simulatedSystem_OwnerInfo L info h = (Local_OwnerInfo L h info, h)"

definition simulatedSystem_LookupUser ::
  "('h, 'fi, 'osf) Live \<Rightarrow> string \<Rightarrow> 'h \<Rightarrow> (error + UID) \<times> 'h" where
  "simulatedSystem_LookupUser L name h = (Local_LookupUser L h name, h)"

definition simulatedSystem_LookupGroup ::
  "('h, 'fi, 'osf) Live \<Rightarrow> string \<Rightarrow> 'h \<Rightarrow> (error + GID) \<times> 'h" where
  "simulatedSystem_LookupGroup L name h = (Local_LookupGroup L h name, h)"

text \<open>\<^verbatim>\<open>Run\<close> returns \<^verbatim>\<open>nil, nil\<close>: no output and no error.\<close>

definition simulatedSystem_Run :: "Cmd \<Rightarrow> 'h \<Rightarrow> (string \<times> error option) \<times> 'h" where
  "simulatedSystem_Run cmd h = (([], None), h)"

text \<open>The value \<^verbatim>\<open>simulatedSystem{}\<close> as a \<^verbatim>\<open>system.System\<close>.\<close>

definition simulatedSystem ::
  "('h, 'fi, 'osf) Live \<Rightarrow> ('h, 'fi, discardWriter, 'osf readOnlyFile) System" where
  "simulatedSystem L =
     \<lparr>Lstat = simulatedSystem_Lstat L, Readlink = simulatedSystem_Readlink L,
      Mkdir = simulatedSystem_Mkdir, Remove = simulatedSystem_Remove,
      Symlink = simulatedSystem_Symlink, CreateFile = simulatedSystem_CreateFile L,
      OpenFile = simulatedSystem_OpenFile L, Chmod = simulatedSystem_Chmod,
      Chown = simulatedSystem_Chown, OwnerInfo = simulatedSystem_OwnerInfo L,
      LookupUser = simulatedSystem_LookupUser L, LookupGroup = simulatedSystem_LookupGroup L,
      Run = simulatedSystem_Run\<rparr>"

subsection \<open>The logger\<close>

text \<open>
  The logger writes to standard error. \<open>stderr\<close> lists the writes made so far, one entry
  for each call of \<^verbatim>\<open>os.Stderr.Write\<close>; \<open>now\<close> is what
  \<^verbatim>\<open>time.Now().Format("2006-01-02T15:04:05")\<close> gives at this moment. The mutex does not
  show in a sequential run and is left out.
\<close>

record LogWorld =
  stderr :: "string list"
  now :: string

record logger =
  quiet :: bool

definition writeLogHead :: "string \<Rightarrow> string \<Rightarrow> string \<Rightarrow> string" where
  "writeLogHead buf severity tm =
     buf @ ''mcm-exec: '' @ tm @ '' '' @ pad_left 5 severity @ '': ''"

definition end_line :: "string \<Rightarrow> string" where
  "end_line b = (if last b \<noteq> CHR 0x0A then b @ [CHR 0x0A] else b)"

text \<open>
  \<^verbatim>\<open>Infof\<close>; \<open>msg\<close> is the text that \<^verbatim>\<open>fmt.Fprintf\<close> makes of the format and its
  arguments, which every caller below spells out.
\<close>

definition logger_Infof :: "logger \<Rightarrow> string \<Rightarrow> LogWorld \<Rightarrow> LogWorld" where
  "logger_Infof l msg lw =
     (if quiet l then lw
      else
        let line = end_line (writeLogHead [] ''INFO'' (now lw) @ msg)
        in lw\<lparr>stderr := stderr lw @ [line]\<rparr>)"

definition logger_Error :: "logger \<Rightarrow> error \<Rightarrow> LogWorld \<Rightarrow> LogWorld" where
  "logger_Error l e lw =
     (let line = end_line (writeLogHead [] ''ERROR'' (now lw) @ err_Error e);
          (output, line') =
            (if \<not> quiet l then
               (case e of
                  ExeclibError m Output \<Rightarrow>
                    if length Output > 0 then
                      let output1 = Output;
                          output2 = (if last output1 = CHR 0x0A then output1 @ [CHR 0x0A]
                                     else output1);
                          output3 = Output
                      in (output3, if last Output \<noteq> CHR 0x0A then line @ [CHR 0x0A] else line)
                    else ([], line)
                | _ \<Rightarrow> ([], line))
             else ([], line))
      in lw\<lparr>stderr := stderr lw @ [line'] @ (if length output > 0 then [output] else [])\<rparr>)"

text \<open>\<^verbatim>\<open>Fatal\<close> ends the process: the result is the exit status.\<close>

definition logger_Fatal :: "logger \<Rightarrow> error \<Rightarrow> LogWorld \<Rightarrow> nat \<times> LogWorld" where
  "logger_Fatal l e lw = (1, logger_Error l e lw)"

subsection \<open>The logging wrapper\<close>

text \<open>
  \<open>sysLogger\<close> embeds a \<^verbatim>\<open>system.System\<close> and holds the logger. Its state is the state
  of the wrapped system with the log beside it. The seven methods it defines come first;
  the others are those of the embedded system, promoted.
\<close>

record ('s, 'fi, 'fw, 'fh) sysLogger =
  System :: "('s, 'fi, 'fw, 'fh) System"
  log :: logger

definition sysLogger_Mkdir ::
  "('s, 'fi, 'fw, 'fh) sysLogger \<Rightarrow> string \<Rightarrow> FileMode \<Rightarrow> 's \<times> LogWorld
     \<Rightarrow> error option \<times> 's \<times> LogWorld" where
  "sysLogger_Mkdir l path mode = (\<lambda>(s, lw).
     let lw' = logger_Infof (log l) (''mkdir '' @ path) lw;
         (r, s') = Mkdir (System l) path mode s
     in (r, s', lw'))"

definition sysLogger_Remove ::
  "('s, 'fi, 'fw, 'fh) sysLogger \<Rightarrow> string \<Rightarrow> 's \<times> LogWorld \<Rightarrow> error option \<times> 's \<times> LogWorld" where
  "sysLogger_Remove l path = (\<lambda>(s, lw).
     let lw' = logger_Infof (log l) (''rm '' @ path) lw;
         (r, s') = Remove (System l) path s
     in (r, s', lw'))"

definition sysLogger_Symlink ::
  "('s, 'fi, 'fw, 'fh) sysLogger \<Rightarrow> string \<Rightarrow> string \<Rightarrow> 's \<times> LogWorld
     \<Rightarrow> error option \<times> 's \<times> LogWorld" where
  "sysLogger_Symlink l oldname newname = (\<lambda>(s, lw).
     let lw' = logger_Infof (log l) (''ln -s '' @ oldname @ '' '' @ newname) lw;
         (r, s') = Symlink (System l) oldname newname s
     in (r, s', lw'))"

text \<open>The number that \<^verbatim>\<open>Chmod\<close> prints in octal: the permission bits and the three flags.\<close>

definition chmod_bits :: "FileMode \<Rightarrow> 32 word" where
  "chmod_bits mode =
     (let m0 = mode AND ModePerm;
          m1 = (if mode AND ModeSticky \<noteq> 0 then m0 OR 512 else m0);
          m2 = (if mode AND ModeSetgid \<noteq> 0 then m1 OR 1024 else m1);
          m3 = (if mode AND ModeSetuid \<noteq> 0 then m2 OR 2048 else m2)
      in m3)"

definition sysLogger_Chmod ::
  "('s, 'fi, 'fw, 'fh) sysLogger \<Rightarrow> string \<Rightarrow> FileMode \<Rightarrow> 's \<times> LogWorld
     \<Rightarrow> error option \<times> 's \<times> LogWorld" where
  "sysLogger_Chmod l path mode = (\<lambda>(s, lw).
     let m = chmod_bits mode;
         lw' = logger_Infof (log l)
                 (''chmod '' @ pad_left 4 (FormatUint (unat m) 8) @ '' '' @ path) lw;
         (r, s') = Chmod (System l) path mode s
     in (r, s', lw'))"

definition sysLogger_Chown ::
  "('s, 'fi, 'fw, 'fh) sysLogger \<Rightarrow> string \<Rightarrow> UID \<Rightarrow> GID \<Rightarrow> 's \<times> LogWorld
     \<Rightarrow> error option \<times> 's \<times> LogWorld" where
  "sysLogger_Chown l path uid gid = (\<lambda>(s, lw).
     let lw' = logger_Infof (log l)
                 (''chown '' @ FormatInt10 uid @ '':'' @ FormatInt10 gid @ '' '' @ path) lw;
         (r, s') = Chown (System l) path uid gid s
     in (r, s', lw'))"

definition sysLogger_CreateFile ::
  "('s, 'fi, 'fw, 'fh) sysLogger \<Rightarrow> string \<Rightarrow> FileMode \<Rightarrow> 's \<times> LogWorld
     \<Rightarrow> (error + 'fw) \<times> 's \<times> LogWorld" where
  "sysLogger_CreateFile l path mode = (\<lambda>(s, lw).
     let lw' = logger_Infof (log l) (''create file '' @ path) lw;
         (r, s') = CreateFile (System l) path mode s
     in (r, s', lw'))"

text \<open>\<^verbatim>\<open>strings.Join\<close>.\<close>

fun strings_Join :: "string list \<Rightarrow> string \<Rightarrow> string" where
  "strings_Join [] sep = []"
| "strings_Join [a] sep = a"
| "strings_Join (a # b # bs) sep = a @ sep @ strings_Join (b # bs) sep"

definition sysLogger_Run ::
  "('s, 'fi, 'fw, 'fh) sysLogger \<Rightarrow> Cmd \<Rightarrow> 's \<times> LogWorld
     \<Rightarrow> (string \<times> error option) \<times> 's \<times> LogWorld" where
  "sysLogger_Run l cmd = (\<lambda>(s, lw).
     let lw' = logger_Infof (log l) (''exec '' @ strings_Join (Args cmd) '' '') lw;
         (r, s') = Run (System l) cmd s
     in (r, s', lw'))"

text \<open>A promoted method runs the embedded system's method beside an untouched log.\<close>

definition promoted :: "('s \<Rightarrow> 'r \<times> 's) \<Rightarrow> 's \<times> LogWorld \<Rightarrow> 'r \<times> 's \<times> LogWorld" where
  "promoted m = (\<lambda>(s, lw). let (r, s') = m s in (r, s', lw))"

definition sysLogger_System ::
  "('s, 'fi, 'fw, 'fh) sysLogger \<Rightarrow> ('s \<times> LogWorld, 'fi, 'fw, 'fh) System" where
  "sysLogger_System l =
     \<lparr>Lstat = (\<lambda>path. promoted (Lstat (System l) path)),
      Readlink = (\<lambda>path. promoted (Readlink (System l) path)),
      Mkdir = sysLogger_Mkdir l, Remove = sysLogger_Remove l,
      Symlink = sysLogger_Symlink l, CreateFile = sysLogger_CreateFile l,
      OpenFile = (\<lambda>path. promoted (OpenFile (System l) path)),
      Chmod = sysLogger_Chmod l, Chown = sysLogger_Chown l,
      OwnerInfo = (\<lambda>info. promoted (OwnerInfo (System l) info)),
      LookupUser = (\<lambda>name. promoted (LookupUser (System l) name)),
      LookupGroup = (\<lambda>name. promoted (LookupGroup (System l) name)),
      Run = sysLogger_Run l\<rparr>"

subsection \<open>The front end\<close>

text \<open>
  The flags after \<^verbatim>\<open>flag.Parse\<close>, and what \<^verbatim>\<open>main\<close> calls outside these files: the capnp
  decoder and \<^verbatim>\<open>catalog.ReadRootCatalog\<close>, standard input, \<^verbatim>\<open>os.Open\<close> and \<^verbatim>\<open>Close\<close> of
  the catalog file, and \<^verbatim>\<open>execlib.Apply\<close>, which is told the flags that chose its system
  and options and may write to the log. \<open>usage_text\<close> is all that \<^verbatim>\<open>usage()\<close> prints.
\<close>

record Flags =
  simulate :: bool
  log_quiet :: bool
  logCommands :: bool
  ConcurrentJobs :: int
  Bash :: string
  versionMode :: bool

record ('r, 'm, 'c) MainEnv =
  Decode :: "'r \<Rightarrow> error + 'm"
  ReadRootCatalog :: "'m \<Rightarrow> error + 'c"
  Stdin :: 'r
  Open :: "string \<Rightarrow> error + 'r"
  Close :: "'r \<Rightarrow> error option"
  Apply :: "Flags \<Rightarrow> 'c \<Rightarrow> LogWorld \<Rightarrow> error option \<times> LogWorld"
  usage_text :: string

definition readCatalog :: "('r, 'm, 'c) MainEnv \<Rightarrow> 'r \<Rightarrow> error + 'c" where
  "readCatalog E r =
     (case Decode E r of
        Inl e \<Rightarrow> Inl (FmtErrorf (''read catalog: '' @ err_Error e))
      | Inr msg \<Rightarrow>
          (case ReadRootCatalog E msg of
             Inl e \<Rightarrow> Inl (FmtErrorf (''read catalog: '' @ err_Error e))
           | Inr c \<Rightarrow> Inr c))"

text \<open>The end of \<^verbatim>\<open>main\<close>: apply the catalog; returning from \<^verbatim>\<open>main\<close> is exit status 0.\<close>

definition main_apply ::
  "('r, 'm, 'c) MainEnv \<Rightarrow> Flags \<Rightarrow> 'c \<Rightarrow> LogWorld \<Rightarrow> nat \<times> LogWorld" where
  "main_apply E fl cat lw =
     (case Apply E fl cat lw of
        (Some e, lw') \<Rightarrow> logger_Fatal \<lparr>quiet = log_quiet fl\<rparr> e lw'
      | (None, lw') \<Rightarrow> (0, lw'))"

text \<open>
  \<^verbatim>\<open>main\<close>, from the parsed flags and the arguments left after them (\<^verbatim>\<open>flag.Args()\<close>) to
  the exit status.
\<close>

definition main :: "('r, 'm, 'c) MainEnv \<Rightarrow> Flags \<Rightarrow> string list \<Rightarrow> LogWorld \<Rightarrow> nat \<times> LogWorld" where
  "main E fl args lw =
     (if versionMode fl then (0, lw)
      else (case args of
          [] \<Rightarrow>
            (case readCatalog E (Stdin E) of
               Inl e \<Rightarrow> logger_Fatal \<lparr>quiet = log_quiet fl\<rparr> e lw
             | Inr cat \<Rightarrow> main_apply E fl cat lw)
        | [a] \<Rightarrow>
            (case Open E a of
               Inl e \<Rightarrow> logger_Fatal \<lparr>quiet = log_quiet fl\<rparr> e lw
             | Inr file \<Rightarrow>
                 (case readCatalog E file of
                    Inl e \<Rightarrow> logger_Fatal \<lparr>quiet = log_quiet fl\<rparr> e lw
                  | Inr cat \<Rightarrow>
                      (case Close E file of
                         Some e \<Rightarrow> main_apply E fl cat (logger_Error \<lparr>quiet = log_quiet fl\<rparr> e lw)
                       | None \<Rightarrow> main_apply E fl cat lw)))
        | _ \<Rightarrow> (2, lw\<lparr>stderr := stderr lw @ [usage_text E]\<rparr>)))"

section \<open>luacat: resource identifiers\<close>

definition idHashPrefix :: string where
  "idHashPrefix = ''mcm-luacat ID: ''"

definition fileResId :: u64 where "fileResId = 0x8dc4ac52b2962163"
definition execResId :: u64 where "execResId = 0x984c97311006f1ca"

text \<open>
  SHA-1 is OpenSSL's and a parameter here: from all the bytes given to \<^verbatim>\<open>SHA1_Update\<close> to
  the digest, an array of \<^verbatim>\<open>SHA_DIGEST_LENGTH\<close> = 20 bytes held as a word of 160 bits whose
  most significant byte is \<^verbatim>\<open>hash[0]\<close>.
\<close>

type_synonym sha1 = "string \<Rightarrow> 160 word"

definition hash_at :: "160 word \<Rightarrow> nat \<Rightarrow> 8 word" where
  "hash_at d i = ucast (drop_bit (8 * (19 - i)) d)"

definition idHash :: "sha1 \<Rightarrow> string \<Rightarrow> u64" where
  "idHash SHA1 s =
     (let hash = hash_at (SHA1 (idHashPrefix @ s)) in
      1 OR ucast (hash 0) OR
        push_bit 8 (ucast (hash 1)) OR
        push_bit 16 (ucast (hash 2)) OR
        push_bit 24 (ucast (hash 3)) OR
        push_bit 32 (ucast (hash 4)) OR
        push_bit 40 (ucast (hash 5)) OR
        push_bit 48 (ucast (hash 6)) OR
        push_bit 56 (ucast (hash 7)))"

text \<open>
  The Lua values that the functions below tell apart: an \<^verbatim>\<open>Id\<close> (value and comment), a
  string (for \<^verbatim>\<open>lua_isstring\<close> also a number, read as its text), a table with its array
  part, the resource type in its metatable if there is one, and the fields that
  \<^verbatim>\<open>copyStruct\<close> reads; and anything else.
\<close>

datatype 't lua_value =
    LuaId u64 string
  | LuaString string
  | LuaTable "'t lua_value list" "u64 option" 't
  | LuaOther

datatype lua_error = luaL_error string | luaL_argerror nat string

fun getId :: "'t lua_value \<Rightarrow> (u64 \<times> string) option" where
  "getId (LuaId v c) = Some (v, c)"
| "getId _ = None"

fun lua_isstring :: "'t lua_value \<Rightarrow> bool" where
  "lua_isstring (LuaString s) = True"
| "lua_isstring _ = False"

fun luaStringPtr :: "'t lua_value \<Rightarrow> string" where
  "luaStringPtr (LuaString s) = s"
| "luaStringPtr _ = []"

fun lua_istable :: "'t lua_value \<Rightarrow> bool" where
  "lua_istable (LuaTable a m t) = True"
| "lua_istable _ = False"

definition hashfunc :: "sha1 \<Rightarrow> 't lua_value list \<Rightarrow> lua_error + 't lua_value" where
  "hashfunc SHA1 args =
     (if length args \<noteq> 1 then
        Inl (luaL_error ([CHR 0x27] @ ''mcm.hash'' @ [CHR 0x27] @ '' takes 1 argument, got ''
               @ FormatUint (length args) 10))
      else if \<not> lua_isstring (args ! 0) then Inl (luaL_argerror 1 ''must be a string'')
      else let comment = luaStringPtr (args ! 0) in Inr (LuaId (idHash SHA1 comment) comment))"

text \<open>The resource that \<^verbatim>\<open>resourcefunc\<close> builds, by the builder's setters.\<close>

datatype 'b body = Noop | FileBody 'b | ExecBody 'b

record 'b ResourceBuilder =
  setId :: u64
  setComment :: string
  initDependencies :: "u64 list"
  setBody :: "'b body"

text \<open>The loop over the dependencies: an \<^verbatim>\<open>Id\<close> gives its value, a string is hashed.\<close>

fun deps_loop :: "sha1 \<Rightarrow> 't lua_value list \<Rightarrow> lua_error + u64 list" where
  "deps_loop SHA1 [] = Inr []"
| "deps_loop SHA1 (d # ds) =
     (case (case getId d of
              Some (v, c) \<Rightarrow> Inr v
            | None \<Rightarrow>
                if lua_isstring d then Inr (idHash SHA1 (luaStringPtr d))
                else Inl (luaL_argerror 2 ''expect deps to contain only mcm.hash or strings'')) of
        Inl e \<Rightarrow> Inl e
      | Inr v \<Rightarrow> (case deps_loop SHA1 ds of Inl e \<Rightarrow> Inl e | Inr vs \<Rightarrow> Inr (v # vs)))"

text \<open>
  \<^verbatim>\<open>resourcefunc\<close>. \<^verbatim>\<open>copyStruct\<close> is a parameter: it turns the fields of the third
  argument into the body, or raises a Lua error.
\<close>

definition resourcefunc ::
  "sha1 \<Rightarrow> ('t \<Rightarrow> lua_error + 'b) \<Rightarrow> 't lua_value list \<Rightarrow> lua_error + 'b ResourceBuilder" where
  "resourcefunc SHA1 copyStruct args =
     (if length args \<noteq> 3 then
        Inl (luaL_error ([CHR 0x27] @ ''mcm.resource'' @ [CHR 0x27] @ '' takes 3 arguments, got ''
               @ FormatUint (length args) 10))
      else if \<not> lua_istable (args ! 1) then Inl (luaL_argerror 2 ''must be a table'')
      else (case args ! 2 of
          LuaTable arr3 None t3 \<Rightarrow> Inl (luaL_argerror 3 ''expect resource table'')
        | LuaTable arr3 (Some typeId) t3 \<Rightarrow>
            (case (case getId (args ! 0) of
                     Some (v, c) \<Rightarrow> Inr (v, c)
                   | None \<Rightarrow>
                       if lua_isstring (args ! 0) then
                         let comment = luaStringPtr (args ! 0) in Inr (idHash SHA1 comment, comment)
                       else Inl (luaL_argerror 1 ''expect mcm.hash or string'')) of
               Inl e \<Rightarrow> Inl e
             | Inr (rid, comment) \<Rightarrow>
                 (case deps_loop SHA1 (case args ! 1 of LuaTable arr2 m2 t2 \<Rightarrow> arr2 | _ \<Rightarrow> []) of
                    Inl e \<Rightarrow> Inl e
                  | Inr deps \<Rightarrow>
                      let res = \<lparr>setId = rid, setComment = comment, initDependencies = deps,
                                 setBody = Noop\<rparr>
                      in if typeId = 0 then Inr res
                         else if typeId = fileResId then
                           (case copyStruct t3 of
                              Inl e \<Rightarrow> Inl e | Inr b \<Rightarrow> Inr (res\<lparr>setBody := FileBody b\<rparr>))
                         else if typeId = execResId then
                           (case copyStruct t3 of
                              Inl e \<Rightarrow> Inl e | Inr b \<Rightarrow> Inr (res\<lparr>setBody := ExecBody b\<rparr>))
                         else Inl (luaL_argerror 3 ''unknown resource type'')))
        | _ \<Rightarrow> Inl (luaL_argerror 3 ''must be a table'')))"

section \<open>depgraph: the dependency graph\<close>

text \<open>
  Modelled from the spec: package depgraph (the graph's nodes and its operations
  \<^verbatim>\<open>Ready\<close> and \<^verbatim>\<open>Mark\<close>) is not among the source files; only the calls in
  \<^verbatim>\<open>WriteScript\<close> are. The definitions follow sections 3 and 4.1 of the specification. A node
  holds the resource, its outstanding-dependency count, the nodes that depend on it (the
  reverse edges) and a state; the graph is the table of the nodes by ID, in catalog order.
\<close>

datatype node_state = Waiting | Ready | Running | Done | Failed | Skipped

datatype outcome = Ok | Fail

record 'r node =
  n_resource :: 'r
  n_count :: int
  n_rdeps :: "u64 list"
  n_state :: node_state

type_synonym 'r graph = "(u64 \<times> 'r node) list"

definition successors :: "'r graph \<Rightarrow> u64 \<Rightarrow> u64 list" where
  "successors g i = (case map_of g i of None \<Rightarrow> [] | Some n \<Rightarrow> n_rdeps n)"

definition state_of :: "'r graph \<Rightarrow> u64 \<Rightarrow> node_state option" where
  "state_of g i = map_option n_state (map_of g i)"

definition count_of :: "'r graph \<Rightarrow> u64 \<Rightarrow> int option" where
  "count_of g i = map_option n_count (map_of g i)"

text \<open>Modelled from the spec: \<^verbatim>\<open>Ready()\<close>, the IDs of the nodes now in state ready.\<close>

definition Ready_ids :: "'r graph \<Rightarrow> u64 list" where
  "Ready_ids g = map fst (filter (\<lambda>(k, n). n_state n = Ready) g)"

definition update_nodes :: "(u64 \<Rightarrow> bool) \<Rightarrow> ('r node \<Rightarrow> 'r node) \<Rightarrow> 'r graph \<Rightarrow> 'r graph" where
  "update_nodes P F g = map (\<lambda>(k, n). if P k then (k, F n) else (k, n)) g"

text \<open>
  Modelled from the spec: the successor's count goes down by one, and "when it reaches 0
  the successor enters ready".
\<close>

definition decrement :: "'r node \<Rightarrow> 'r node" where
  "decrement n =
     (let c = n_count n - 1 in n\<lparr>n_count := c, n_state := (if c = 0 then Ready else n_state n)\<rparr>)"

text \<open>
  Modelled from the spec: the reverse-edge traversal of \<^verbatim>\<open>Mark\<close> on failure. It walks
  depth first from a stack of nodes still to visit and returns every node it has seen.
\<close>

function descendants :: "'r graph \<Rightarrow> u64 list \<Rightarrow> u64 list \<Rightarrow> u64 list" where
  "descendants g [] seen = seen"
| "descendants g (x # xs) seen =
     (if x \<in> set seen \<or> map_of g x = None then descendants g xs seen
      else descendants g (successors g x @ xs) (x # seen))"
  by pat_completeness auto
termination
proof (relation "measures [\<lambda>(g, xs, seen). card (fst ` set g - set seen),
                            \<lambda>(g, xs, seen). length xs]")
  show "wf (measures [\<lambda>(g, xs, seen). card (fst ` set g - set seen),
                      \<lambda>(g :: 'a graph, xs, seen). length xs])"
    by simp
next
  fix g :: "'a graph" and x xs seen
  assume "x \<in> set seen \<or> map_of g x = None"
  then show "((g, xs, seen), (g, x # xs, seen))
      \<in> measures [\<lambda>(g, xs, seen). card (fst ` set g - set seen), \<lambda>(g, xs, seen). length xs]"
    by simp
next
  fix g :: "'a graph" and x xs seen
  assume a: "\<not> (x \<in> set seen \<or> map_of g x = None)"
  then have "x \<in> fst ` set g"
    by (metis map_of_eq_None_iff)
  with a have "fst ` set g - set (x # seen) \<subset> fst ` set g - set seen"
    by auto
  then have "card (fst ` set g - set (x # seen)) < card (fst ` set g - set seen)"
    by (intro psubset_card_mono) auto
  then show "((g, successors g x @ xs, x # seen), (g, x # xs, seen))
      \<in> measures [\<lambda>(g, xs, seen). card (fst ` set g - set seen), \<lambda>(g, xs, seen). length xs]"
    by simp
qed

text \<open>
  Modelled from the spec: \<^verbatim>\<open>Mark(id, outcome)\<close>. On \<open>Ok\<close> the node becomes done and each
  reverse-edge successor is decremented. On \<open>Fail\<close> the node becomes failed and every
  transitive descendant becomes skipped.
\<close>

fun Mark :: "'r graph \<Rightarrow> u64 \<Rightarrow> outcome \<Rightarrow> 'r graph" where
  "Mark g i Ok =
     (let g1 = update_nodes (\<lambda>k. k = i) (\<lambda>n. n\<lparr>n_state := Done\<rparr>) g
      in update_nodes (\<lambda>k. k \<in> set (successors g i)) decrement g1)"
| "Mark g i Fail =
     (let g1 = update_nodes (\<lambda>k. k = i) (\<lambda>n. n\<lparr>n_state := Failed\<rparr>) g
      in update_nodes (\<lambda>k. k \<in> set (descendants g (successors g i) []))
           (\<lambda>n. n\<lparr>n_state := Skipped\<rparr>) g1)"

text \<open>The reverse edges as a relation: \<open>(a, b)\<close> when \<open>b\<close> depends on \<open>a\<close>.\<close>

definition rev_edges :: "'r graph \<Rightarrow> (u64 \<times> u64) set" where
  "rev_edges g = {(a, b). b \<in> set (successors g a)}"

section \<open>Sequences of operations\<close>

text \<open>
  A call of one method of a \<^verbatim>\<open>system.System\<close> and what it returns, so that a run of an
  applier against a backend is a list of calls.
\<close>

datatype 'fi sys_call =
    CallLstat string
  | CallReadlink string
  | CallMkdir string FileMode
  | CallRemove string
  | CallSymlink string string
  | CallCreateFile string FileMode
  | CallOpenFile string
  | CallChmod string FileMode
  | CallChown string UID GID
  | CallOwnerInfo 'fi
  | CallLookupUser string
  | CallLookupGroup string
  | CallRun Cmd

datatype ('fi, 'fw, 'fh) sys_return =
    RetError "error option"
  | RetInfo "error + 'fi"
  | RetText "error + string"
  | RetWriter "error + 'fw"
  | RetFile "error + 'fh"
  | RetOwner "error + UID \<times> GID"
  | RetNumber "error + int"
  | RetOutput string "error option"

fun call ::
  "('s, 'fi, 'fw, 'fh) System \<Rightarrow> 'fi sys_call \<Rightarrow> 's \<Rightarrow> ('fi, 'fw, 'fh) sys_return \<times> 's" where
  "call S (CallLstat path) s = (case Lstat S path s of (r, s') \<Rightarrow> (RetInfo r, s'))"
| "call S (CallReadlink path) s = (case Readlink S path s of (r, s') \<Rightarrow> (RetText r, s'))"
| "call S (CallMkdir path mode) s = (case Mkdir S path mode s of (r, s') \<Rightarrow> (RetError r, s'))"
| "call S (CallRemove path) s = (case Remove S path s of (r, s') \<Rightarrow> (RetError r, s'))"
| "call S (CallSymlink oldname newname) s =
     (case Symlink S oldname newname s of (r, s') \<Rightarrow> (RetError r, s'))"
| "call S (CallCreateFile path mode) s =
     (case CreateFile S path mode s of (r, s') \<Rightarrow> (RetWriter r, s'))"
| "call S (CallOpenFile path) s = (case OpenFile S path s of (r, s') \<Rightarrow> (RetFile r, s'))"
| "call S (CallChmod path mode) s = (case Chmod S path mode s of (r, s') \<Rightarrow> (RetError r, s'))"
| "call S (CallChown path uid gid) s =
     (case Chown S path uid gid s of (r, s') \<Rightarrow> (RetError r, s'))"
| "call S (CallOwnerInfo info) s = (case OwnerInfo S info s of (r, s') \<Rightarrow> (RetOwner r, s'))"
| "call S (CallLookupUser name) s = (case LookupUser S name s of (r, s') \<Rightarrow> (RetNumber r, s'))"
| "call S (CallLookupGroup name) s = (case LookupGroup S name s of (r, s') \<Rightarrow> (RetNumber r, s'))"
| "call S (CallRun cmd) s = (case Run S cmd s of ((out, e), s') \<Rightarrow> (RetOutput out e, s'))"

fun calls ::
  "('s, 'fi, 'fw, 'fh) System \<Rightarrow> 'fi sys_call list \<Rightarrow> 's
     \<Rightarrow> ('fi, 'fw, 'fh) sys_return list \<times> 's" where
  "calls S [] s = ([], s)"
| "calls S (c # cs) s =
     (case call S c s of (r, s') \<Rightarrow> (case calls S cs s' of (rs, s'') \<Rightarrow> (r # rs, s'')))"

text \<open>The methods that change the host when the system is the real one.\<close>

fun is_mutation :: "'fi sys_call \<Rightarrow> bool" where
  "is_mutation (CallMkdir path mode) = True"
| "is_mutation (CallRemove path) = True"
| "is_mutation (CallSymlink oldname newname) = True"
| "is_mutation (CallChmod path mode) = True"
| "is_mutation (CallChown path uid gid) = True"
| "is_mutation (CallCreateFile path mode) = True"
| "is_mutation (CallRun cmd) = True"
| "is_mutation _ = False"

text \<open>The same for the handle that \<open>simulatedSystem_OpenFile\<close> returns.\<close>

datatype file_call =
    CallRead nat
  | CallWrite string
  | CallSeek int int
  | CallTruncate int
  | CallClose

datatype file_return =
    RetRead string "error option"
  | RetWrite nat "error option"
  | RetSeek int "error option"
  | RetTruncate "error option"
  | RetClose "error option"

fun handle_call ::
  "('h, 'fi, 'osf) Live \<Rightarrow> file_call \<Rightarrow> 'osf readOnlyFile \<Rightarrow> 'h
     \<Rightarrow> file_return \<times> 'osf readOnlyFile \<times> 'h" where
  "handle_call L (CallRead len_p) ro h =
     (case readOnlyFile_Read L ro len_p h of ((p, e), ro', h') \<Rightarrow> (RetRead p e, ro', h'))"
| "handle_call L (CallWrite p) ro h =
     (case readOnlyFile_Write ro p h of ((n, e), ro', h') \<Rightarrow> (RetWrite n e, ro', h'))"
| "handle_call L (CallSeek offset whence) ro h =
     (case readOnlyFile_Seek L ro offset whence h of ((n, e), ro', h') \<Rightarrow> (RetSeek n e, ro', h'))"
| "handle_call L (CallTruncate sz) ro h =
     (case readOnlyFile_Truncate ro sz h of (e, ro', h') \<Rightarrow> (RetTruncate e, ro', h'))"
| "handle_call L CallClose ro h =
     (case readOnlyFile_Close L ro h of (e, ro', h') \<Rightarrow> (RetClose e, ro', h'))"

fun handle_calls ::
  "('h, 'fi, 'osf) Live \<Rightarrow> file_call list \<Rightarrow> 'osf readOnlyFile \<Rightarrow> 'h
     \<Rightarrow> file_return list \<times> 'osf readOnlyFile \<times> 'h" where
  "handle_calls L [] ro h = ([], ro, h)"
| "handle_calls L (c # cs) ro h =
     (case handle_call L c ro h of
        (r, ro', h') \<Rightarrow> (case handle_calls L cs ro' h' of (rs, ro'', h'') \<Rightarrow> (r # rs, ro'', h'')))"

fun is_write :: "file_call \<Rightarrow> bool" where
  "is_write (CallWrite p) = True"
| "is_write (CallTruncate sz) = True"
| "is_write _ = False"

text \<open>A read or a seek that returned nothing but an error.\<close>

fun read_failed :: "file_call \<Rightarrow> file_return \<Rightarrow> bool" where
  "read_failed (CallRead len_p) (RetRead p (Some e)) = (p = [])"
| "read_failed (CallRead len_p) r = False"
| "read_failed (CallSeek offset whence) (RetSeek n (Some e)) = (n = 0)"
| "read_failed (CallSeek offset whence) r = False"
| "read_failed c r = True"

text \<open>A run of writes to the writer that \<open>simulatedSystem_CreateFile\<close> returns.\<close>

fun discardWriter_writes ::
  "discardWriter \<Rightarrow> string list \<Rightarrow> 'h \<Rightarrow> (nat \<times> error option) list \<times> 'h" where
  "discardWriter_writes d [] h = ([], h)"
| "discardWriter_writes d (p # ps) h =
     (case discardWriter_Write d p h of
        (r, h') \<Rightarrow> (case discardWriter_writes d ps h' of (rs, h'') \<Rightarrow> (r # rs, h'')))"

section \<open>Concrete instances\<close>

text \<open>
  Small concrete values for the parameters above, on which the theorems are evaluated.
  The host is a table from paths to what is there: the content of a file, or the error
  that touching the path gives. An open file is its path and an offset.
\<close>

type_synonym table_host = "(string \<times> (error + string)) list"

definition table_lstat :: "table_host \<Rightarrow> string \<Rightarrow> error + nat" where
  "table_lstat h path =
     (case map_of h path of
        None \<Rightarrow> Inl (PathError ''lstat'' path ErrNotExist)
      | Some (Inl e) \<Rightarrow> Inl (PathError ''lstat'' path e)
      | Some (Inr c) \<Rightarrow> Inr (length c))"

definition table_read ::
  "table_host \<Rightarrow> string \<times> nat \<Rightarrow> nat \<Rightarrow> (string \<times> error option) \<times> string \<times> nat" where
  "table_read h osf len_p =
     (case map_of h (fst osf) of
        Some (Inr c) \<Rightarrow>
          (let p = take len_p (drop (snd osf) c)
           in if p = [] then (([], Some (Foreign ''EOF'')), osf)
              else ((p, None), (fst osf, snd osf + length p)))
      | _ \<Rightarrow> (([], Some (Foreign ''EOF'')), osf))"

definition table_Live :: "(table_host, nat, string \<times> nat) Live" where
  "table_Live =
     \<lparr>Local_Lstat = table_lstat,
      Local_Readlink = (\<lambda>h path. Inl (PathError ''readlink'' path (Foreign ''invalid argument''))),
      Local_OwnerInfo = (\<lambda>h info. Inr (0, 0)),
      Local_LookupUser = (\<lambda>h name. if name = ''root'' then Inr 0 else Inl (Foreign ''unknown user'')),
      Local_LookupGroup = (\<lambda>h name. if name = ''root'' then Inr 0 else Inl (Foreign ''unknown group'')),
      os_Lstat = table_lstat,
      os_Open = (\<lambda>h path. case map_of h path of
                   Some (Inr c) \<Rightarrow> Inr (path, 0)
                 | Some (Inl e) \<Rightarrow> Inl (PathError ''open'' path e)
                 | None \<Rightarrow> Inl (PathError ''open'' path ErrNotExist)),
      osf_Read = table_read,
      osf_Seek = (\<lambda>h osf offset whence.
                   if whence = 0 \<and> 0 \<le> offset then ((offset, None), (fst osf, nat offset))
                   else ((0, Some (Foreign ''invalid argument'')), osf)),
      osf_Close = (\<lambda>h osf. (None, osf))\<rparr>"

definition host1 :: table_host where
  "host1 = [(''/etc/motd'', Inr ''hello''), (''/root/key'', Inl (Foreign ''permission denied''))]"

definition log0 :: LogWorld where
  "log0 = \<lparr>stderr = [], now = ''2016-05-01T12:00:00''\<rparr>"

text \<open>
  A graph that is never done and never has anything ready, behind a writer that keeps
  what it is given or (when \<open>broken\<close>) refuses every write.
\<close>

definition stuck_env :: "bool \<Rightarrow> (unit, string list) ScriptEnv" where
  "stuck_env broken =
     \<lparr>depgraph_New = (\<lambda>res. Inr ()),
      graph_Done = (\<lambda>g. False),
      graph_Ready = (\<lambda>g. []),
      graph_Resource = (\<lambda>g i. \<lparr>ID = i, Comment = [],
         File = \<lparr>Path = Inr [], Which = File_Which_plain,
                 Plain = \<lparr>HasContent = False, Content = []\<rparr>\<rparr>\<rparr>),
      graph_Mark = (\<lambda>g i. g),
      w_Write = (\<lambda>out p. if broken then ((0, Some (Foreign ''broken pipe'')), out)
                          else ((length p, None), out @ [p])),
      base64_chunks = (\<lambda>c. [])\<rparr>"

text \<open>A front end whose catalog is the name of the stream it is read from.\<close>

definition front_env :: "(string, string, string) MainEnv" where
  "front_env =
     \<lparr>Decode = (\<lambda>r. if r = ''garbage'' then Inl (Foreign ''unexpected EOF'') else Inr r),
      ReadRootCatalog = (\<lambda>m. Inr m),
      Stdin = ''stdin'',
      Open = (\<lambda>a. if a = ''missing'' then Inl (PathError ''open'' a ErrNotExist) else Inr a),
      Close = (\<lambda>r. None),
      Apply = (\<lambda>fl c lw. (if c = ''failing'' then Some (ExeclibError ''apply: exit status 1'' ''boom'')
                            else None, lw)),
      usage_text = ''usage: mcm-exec [CATALOG]:''\<rparr>"

definition flags0 :: Flags where
  "flags0 = \<lparr>simulate = False, log_quiet = False, logCommands = False, ConcurrentJobs = 1,
             Bash = ''/bin/bash'', versionMode = False\<rparr>"

definition flags_version :: Flags where
  "flags_version = flags0\<lparr>versionMode := True\<rparr>"

text \<open>A digest that is not SHA-1: its first byte is the number of bytes it was given.\<close>

definition length_digest :: sha1 where
  "length_digest bs = push_bit 152 (of_nat (length bs))"

text \<open>
  Four nodes: 2 depends on 1, 3 depends on 2, and 4 depends on nothing. Node 1 is running.
\<close>

definition chain_graph :: "unit graph" where
  "chain_graph =
     [(1, \<lparr>n_resource = (), n_count = 0, n_rdeps = [2], n_state = Running\<rparr>),
      (2, \<lparr>n_resource = (), n_count = 1, n_rdeps = [3], n_state = Waiting\<rparr>),
      (3, \<lparr>n_resource = (), n_count = 1, n_rdeps = [], n_state = Waiting\<rparr>),
      (4, \<lparr>n_resource = (), n_count = 0, n_rdeps = [], n_state = Ready\<rparr>)]"

chapter \<open>The verification\<close>

section \<open>shlib\<close>

subsection \<open>Quoting round trip\<close>

lemma quote_loop_escape: "quote_loop buf s = buf @ escape_quotes s"
  by (induction s arbitrary: buf) (simp_all add: escape_quotes_def)

lemma all_safe_list_all: "all_safe s = list_all isShellSafe s"
  by (induction s) simp_all

lemma safe_bytes_codes:
  "map char_of ([65..<91] @ [97..<123] @ [48..<58] @ [45, 95, 47 :: nat]) = safe_bytes"
  by code_simp

lemma safe_bytes_safe: "list_all isShellSafe safe_bytes"
  by code_simp

lemma safe_bytes_plain: "list_all (\<lambda>c. \<not> bash_special c \<and> c \<noteq> CHR 0x00) safe_bytes"
  by code_simp

lemma class_safe: "safe_class c \<Longrightarrow> isShellSafe c"
  using safe_bytes_safe by (simp add: safe_class_def list_all_iff)

lemma safe_in_class: "isShellSafe c \<Longrightarrow> safe_class c"
proof -
  assume a: "isShellSafe c"
  have "(of_char c :: nat) \<in> {65..<91} \<union> {97..<123} \<union> {48..<58} \<union> {45, 95, 47}"
    using a by (auto simp: isShellSafe_def less_eq_char_def)
  also have "{65..<91} \<union> {97..<123} \<union> {48..<58} \<union> {45, 95, 47}
      = set ([65..<91] @ [97..<123] @ [48..<58] @ [45, 95, 47 :: nat])"
    by (simp only: set_append set_upt list.set) auto
  finally have "char_of (of_char c :: nat)
      \<in> char_of ` set ([65..<91] @ [97..<123] @ [48..<58] @ [45, 95, 47 :: nat])"
    by (rule imageI)
  then have "c \<in> set (map char_of ([65..<91] @ [97..<123] @ [48..<58] @ [45, 95, 47 :: nat]))"
    by (simp only: set_map char_of_char)
  then show ?thesis by (simp only: safe_bytes_codes safe_class_def)
qed

lemma isShellSafe_class: "isShellSafe c = safe_class c"
  using class_safe safe_in_class by blast

lemma safe_plain: "safe_class c \<Longrightarrow> \<not> bash_special c \<and> c \<noteq> CHR 0x00"
  using safe_bytes_plain by (simp add: safe_class_def list_all_iff)

lemma quotes_special: "bash_special (CHR 0x27)" "bash_special (CHR 0x5C)"
  by (simp_all add: bash_special_def)

lemma bash_unquoted_plain:
  "\<not> bash_special c \<Longrightarrow> bash_unquoted (c # cs) = map_option ((#) c) (bash_unquoted cs)"
  using quotes_special by (cases cs) auto

lemma bash_unquoted_safe: "list_all safe_class s \<Longrightarrow> bash_unquoted s = Some s"
  by (induction s) (simp_all add: bash_unquoted_plain safe_plain)

lemma bash_input_safe: "list_all safe_class s \<Longrightarrow> bash_input s = s"
  by (induction s) (simp_all add: bash_input_def safe_plain)

lemma bash_input_no_NUL: "CHR 0x00 \<notin> set s \<Longrightarrow> bash_input s = s"
  by (induction s) (auto simp: bash_input_def)

lemma bash_unquoted_quote: "bash_unquoted (CHR 0x27 # cs) = bash_squoted cs"
  by (cases cs) simp_all

lemma bash_squoted_escape: "bash_squoted (escape_quotes s @ [CHR 0x27]) = Some s"
  by (induction s) (simp_all add: escape_quotes_def bash_unquoted_quote)

lemma bash_input_escape: "bash_input (escape_quotes s) = escape_quotes (bash_input s)"
  by (induction s) (simp_all add: escape_quotes_def bash_input_def)

lemma bash_word_quoted:
  "bash_word ([CHR 0x27] @ escape_quotes s @ [CHR 0x27]) = Some (bash_input s)"
proof -
  have "bash_input ([CHR 0x27] @ escape_quotes s @ [CHR 0x27])
      = CHR 0x27 # escape_quotes (bash_input s) @ [CHR 0x27]"
    using bash_input_escape [of s] by (simp add: bash_input_def)
  then show ?thesis
    by (simp add: bash_word_def bash_unquoted_quote bash_squoted_escape)
qed

text \<open>
  Claim C10, as amended. For every byte string \<open>s\<close>: the empty string gives two single
  quotes, a string of bytes in \<^verbatim>\<open>[A-Za-z0-9-_/]\<close> only is returned as it is, and any other
  string is put between single quotes with every single quote in it replaced by quote,
  backslash, quote, quote. Bash reads the word that \<open>shellQuote s\<close> returns as \<open>s\<close> without
  its NUL bytes. So for every \<open>s\<close> that holds no NUL byte, quoting and then reading the word
  as bash does is the identity.
\<close>

theorem shellQuote_roundtrip:
  "bash_word (shellQuote s) = Some (bash_input s) \<and>
   (CHR 0x00 \<notin> set s \<longrightarrow> bash_word (shellQuote s) = Some s) \<and>
   shellQuote s =
     (if s = [] then [CHR 0x27, CHR 0x27]
      else if list_all safe_class s then s
      else [CHR 0x27] @ escape_quotes s @ [CHR 0x27])"
proof -
  have cls: "all_safe s = list_all safe_class s"
    by (simp add: all_safe_list_all isShellSafe_class [abs_def])
  have shape: "shellQuote s =
     (if s = [] then [CHR 0x27, CHR 0x27]
      else if list_all safe_class s then s
      else [CHR 0x27] @ escape_quotes s @ [CHR 0x27])"
    by (simp add: shellQuote_def cls quote_loop_escape)
  have val: "bash_word (shellQuote s) = Some (bash_input s)"
  proof (cases "s = []")
    case True
    then show ?thesis by (simp add: shellQuote_def bash_word_def bash_input_def)
  next
    case False
    show ?thesis
    proof (cases "list_all safe_class s")
      case True
      with False show ?thesis
        by (simp add: shape bash_word_def bash_input_safe bash_unquoted_safe)
    next
      case False
      with \<open>s \<noteq> []\<close> have "shellQuote s = [CHR 0x27] @ escape_quotes s @ [CHR 0x27]"
        by (simp add: shape)
      then show ?thesis by (simp only: bash_word_quoted)
    qed
  qed
  from val bash_input_no_NUL [of s] shape show ?thesis by simp
qed

text \<open>
  Claim C10 as stated fails for a string that holds a NUL byte: the word that
  \<open>shellQuote\<close> returns for the three bytes a, NUL, b is read by bash as the two bytes a, b.
\<close>

theorem shellQuote_NUL_counterexample:
  "shellQuote [CHR ''a'', CHR 0x00, CHR ''b''] = [CHR 0x27, CHR ''a'', CHR 0x00, CHR ''b'', CHR 0x27] \<and>
   bash_word (shellQuote [CHR ''a'', CHR 0x00, CHR ''b'']) = Some ''ab'' \<and>
   bash_word (shellQuote [CHR ''a'', CHR 0x00, CHR ''b'']) \<noteq> Some [CHR ''a'', CHR 0x00, CHR ''b'']"
  by (simp add: shellQuote_def isShellSafe_def less_eq_char_def bash_word_def bash_input_def)

theorem shellQuote_roundtrip_witness:
  "CHR 0x00 \<notin> set ''it's'' \<and>
   bash_word (shellQuote ''it's'') = Some ''it's'' \<and>
   shellQuote ''it's'' =
     [CHR 0x27] @ ''it'' @ [CHR 0x27, CHR 0x5C, CHR 0x27, CHR 0x27] @ ''s'' @ [CHR 0x27]"
proof -
  have n: "CHR 0x00 \<notin> set ''it's''" by simp
  have ne: "''it's'' \<noteq> []" by simp
  have u: "\<not> list_all safe_class ''it's''"
    by (simp add: safe_class_def safe_bytes_def)
  note t = shellQuote_roundtrip [of "''it's''"]
  from t n have v: "bash_word (shellQuote ''it's'') = Some ''it's''" by blast
  from t have "shellQuote ''it's'' =
     (if ''it's'' = [] then [CHR 0x27, CHR 0x27]
      else if list_all safe_class ''it's'' then ''it's''
      else [CHR 0x27] @ escape_quotes ''it's'' @ [CHR 0x27])" by blast
  with ne u have "shellQuote ''it's'' = [CHR 0x27] @ escape_quotes ''it's'' @ [CHR 0x27]"
    by (simp only: if_False)
  then have "shellQuote ''it's'' =
     [CHR 0x27] @ ''it'' @ [CHR 0x27, CHR 0x5C, CHR 0x27, CHR 0x27] @ ''s'' @ [CHR 0x27]"
    by (simp add: escape_quotes_def)
  with n v show ?thesis by blast
qed

subsection \<open>The stuck graph\<close>

lemma errWriter_Write_sticky:
  "err x = Some e \<Longrightarrow> errWriter_Write E x p = ((0, Some e), x)"
  by (simp add: errWriter_Write_def)

lemma gen_p_sticky: "err (ew g) = Some e \<Longrightarrow> gen_p E g args = g"
  by (simp add: gen_p_def errWriter_Write_sticky)

lemma drive_stuck:
  "\<not> graph_Done E graph \<Longrightarrow> graph_Ready E graph = [] \<Longrightarrow> err (ew g) = None \<Longrightarrow>
   drive E g graph = Some (Some (ErrorsNew ''graph not done, but has nothing to do''), g, graph)"
  by (subst drive.simps) simp

lemma drive_writer_failed:
  "err (ew g) = Some e \<Longrightarrow> drive E g graph = Some (None, g, graph)"
  by (subst drive.simps) simp

lemma WriteScript_end_failed:
  "err (ew g) = Some e \<Longrightarrow> WriteScript_end E (Some (None, g, graph)) = Some (Some e, w (ew g))"
  by (simp add: WriteScript_end_def gen_out_def gen_p_sticky Let_def)


lemma stuck_env_begin:
  "WriteScript_begin (stuck_env False) [] =
      \<lparr>ew = \<lparr>w = [''#!/bin/bash'' @ [CHR 0x0A], ''_() {'' @ [CHR 0x0A], ''  set -e'' @ [CHR 0x0A]],
              err = None\<rparr>, indent = 1\<rparr>"
  "WriteScript_begin (stuck_env True) [] =
      \<lparr>ew = \<lparr>w = [], err = Some (Foreign ''broken pipe'')\<rparr>, indent = 1\<rparr>"
  by (simp_all add: WriteScript_begin_def gen_p_def gen_in_def errWriter_Write_def stuck_env_def)



section \<open>exec: the simulated backend\<close>

subsection \<open>No mutation of the host\<close>

lemma call_simulated_host: "snd (call (simulatedSystem L) c h) = h"
  by (cases c)
    (simp_all add: simulatedSystem_def simulatedSystem_Lstat_def simulatedSystem_Readlink_def
      simulatedSystem_Mkdir_def simulatedSystem_Remove_def simulatedSystem_Symlink_def
      simulatedSystem_CreateFile_def simulatedSystem_OpenFile_def simulatedSystem_Chmod_def
      simulatedSystem_Chown_def simulatedSystem_OwnerInfo_def simulatedSystem_LookupUser_def
      simulatedSystem_LookupGroup_def simulatedSystem_Run_def os_IsNotExist_def
      split: sum.splits)

lemma calls_simulated_host: "snd (calls (simulatedSystem L) cs h) = h"
proof (induction cs)
  case Nil
  show ?case by simp
next
  case (Cons c cs)
  obtain r h' where c: "call (simulatedSystem L) c h = (r, h')"
    by (cases "call (simulatedSystem L) c h")
  with call_simulated_host [of L c h] have "h' = h" by simp
  with Cons c show ?case by (cases "calls (simulatedSystem L) cs h") simp
qed

lemma discardWriter_writes_all:
  "discardWriter_writes d ps h = (map (\<lambda>p. (length p, None)) ps, h)"
  by (induction ps) (simp_all add: discardWriter_Write_def)

lemma handle_call_host: "snd (snd (handle_call L c ro h)) = h"
  by (cases c)
    (simp_all add: readOnlyFile_Read_def readOnlyFile_Write_def readOnlyFile_Seek_def
      readOnlyFile_Truncate_def readOnlyFile_Close_def split: prod.splits)

lemma handle_calls_host: "snd (snd (handle_calls L cs ro h)) = h"
proof (induction cs arbitrary: ro)
  case Nil
  show ?case by simp
next
  case (Cons c cs)
  obtain r ro' h' where c: "handle_call L c ro h = (r, ro', h')"
    by (cases "handle_call L c ro h")
  with handle_call_host [of L c ro h] have "h' = h" by simp
  with c Cons [of ro'] show ?case
    by (cases "handle_calls L cs ro' h") simp
qed

text \<open>
  Claim C1. Whatever calls an applier makes on the simulated backend, for whatever catalog,
  the host after them is the host before them, and the same holds for the calls on a file
  handle or a writer that the backend returned. \<^verbatim>\<open>Mkdir\<close>, \<^verbatim>\<open>Remove\<close>, \<^verbatim>\<open>Symlink\<close>,
  \<^verbatim>\<open>Chmod\<close>, \<^verbatim>\<open>Chown\<close> and \<^verbatim>\<open>Run\<close> return success and leave the host as it is, and
  \<^verbatim>\<open>Lstat\<close>, \<^verbatim>\<open>Readlink\<close>, \<^verbatim>\<open>OwnerInfo\<close>, \<^verbatim>\<open>LookupUser\<close> and \<^verbatim>\<open>LookupGroup\<close> return
  what the live system returns.
\<close>

theorem simulatedSystem_no_mutation:
  "snd (calls (simulatedSystem L) cs h) = h \<and>
   snd (snd (handle_calls L fcs ro h)) = h \<and>
   snd (discardWriter_writes d ps h) = h \<and>
   Mkdir (simulatedSystem L) path mode h = (None, h) \<and>
   Remove (simulatedSystem L) path h = (None, h) \<and>
   Symlink (simulatedSystem L) oldname newname h = (None, h) \<and>
   Chmod (simulatedSystem L) path mode h = (None, h) \<and>
   Chown (simulatedSystem L) path uid gid h = (None, h) \<and>
   Run (simulatedSystem L) cmd h = (([], None), h) \<and>
   Lstat (simulatedSystem L) path h = (Local_Lstat L h path, h) \<and>
   Readlink (simulatedSystem L) path h = (Local_Readlink L h path, h) \<and>
   OwnerInfo (simulatedSystem L) info h = (Local_OwnerInfo L h info, h) \<and>
   LookupUser (simulatedSystem L) name h = (Local_LookupUser L h name, h) \<and>
   LookupGroup (simulatedSystem L) name h = (Local_LookupGroup L h name, h)"
  using calls_simulated_host [of L cs h] handle_calls_host [of L fcs ro h]
  by (simp add: discardWriter_writes_all simulatedSystem_def simulatedSystem_Lstat_def
      simulatedSystem_Readlink_def simulatedSystem_Mkdir_def simulatedSystem_Remove_def
      simulatedSystem_Symlink_def simulatedSystem_Chmod_def simulatedSystem_Chown_def
      simulatedSystem_OwnerInfo_def simulatedSystem_LookupUser_def
      simulatedSystem_LookupGroup_def simulatedSystem_Run_def)

theorem simulatedSystem_no_mutation_witness:
  "calls (simulatedSystem table_Live)
     [CallMkdir ''/srv'' 493, CallLstat ''/etc/motd'', CallRemove ''/etc/motd'',
      CallLstat ''/etc/motd'', CallRun \<lparr>Args = [''rm'', ''-rf'', ''/'']\<rparr>] host1 =
   ([RetError None, RetInfo (Inr 5), RetError None, RetInfo (Inr 5), RetOutput [] None], host1)"
proof -
  have "snd (calls (simulatedSystem table_Live)
     [CallMkdir ''/srv'' 493, CallLstat ''/etc/motd'', CallRemove ''/etc/motd'',
      CallLstat ''/etc/motd'', CallRun \<lparr>Args = [''rm'', ''-rf'', ''/'']\<rparr>] host1) = host1"
    using simulatedSystem_no_mutation [where L = table_Live and h = host1] by blast
  moreover have "fst (calls (simulatedSystem table_Live)
     [CallMkdir ''/srv'' 493, CallLstat ''/etc/motd'', CallRemove ''/etc/motd'',
      CallLstat ''/etc/motd'', CallRun \<lparr>Args = [''rm'', ''-rf'', ''/'']\<rparr>] host1) =
     [RetError None, RetInfo (Inr 5), RetError None, RetInfo (Inr 5), RetOutput [] None]"
    by (simp add: simulatedSystem_def simulatedSystem_Lstat_def simulatedSystem_Mkdir_def
        simulatedSystem_Remove_def simulatedSystem_Run_def table_Live_def table_lstat_def
        host1_def)
  ultimately show ?thesis by (simp add: prod_eq_iff)
qed

subsection \<open>Creating a file in a dry run\<close>

text \<open>
  Claim C4. For every path, \<^verbatim>\<open>CreateFile\<close> of the simulated backend returns an error when
  the path exists (\<^verbatim>\<open>os.Lstat\<close> succeeds) and returns the error of \<^verbatim>\<open>os.Lstat\<close> when that
  is not a not-found error; otherwise it returns a writer whose \<^verbatim>\<open>Write\<close> reports every
  byte as written and leaves the host as it is, however many writes are made, and whose
  \<^verbatim>\<open>Close\<close> succeeds.
\<close>

theorem simulatedSystem_CreateFile_result:
  "(os_Lstat L h path = Inr info \<longrightarrow>
      simulatedSystem_CreateFile L path mode h = (Inl (PathError ''open'' path ErrExist), h)) \<and>
   (os_Lstat L h path = Inl e \<and> \<not> os_IsNotExist e \<longrightarrow>
      simulatedSystem_CreateFile L path mode h = (Inl e, h)) \<and>
   (os_Lstat L h path = Inl e \<and> os_IsNotExist e \<longrightarrow>
      simulatedSystem_CreateFile L path mode h = (Inr discardWriter, h)) \<and>
   discardWriter_Write d p h = ((length p, None), h) \<and>
   discardWriter_writes d ps h = (map (\<lambda>p. (length p, None)) ps, h) \<and>
   discardWriter_Close d h = (None, h)"
  by (simp add: simulatedSystem_CreateFile_def discardWriter_writes_all discardWriter_Write_def
      discardWriter_Close_def)

theorem simulatedSystem_CreateFile_result_witness:
  "os_Lstat table_Live host1 ''/etc/motd'' = Inr 5 \<and>
   simulatedSystem_CreateFile table_Live ''/etc/motd'' 420 host1 =
     (Inl (PathError ''open'' ''/etc/motd'' ErrExist), host1) \<and>
   os_Lstat table_Live host1 ''/root/key'' =
     Inl (PathError ''lstat'' ''/root/key'' (Foreign ''permission denied'')) \<and>
   \<not> os_IsNotExist (PathError ''lstat'' ''/root/key'' (Foreign ''permission denied'')) \<and>
   simulatedSystem_CreateFile table_Live ''/root/key'' 420 host1 =
     (Inl (PathError ''lstat'' ''/root/key'' (Foreign ''permission denied'')), host1) \<and>
   os_Lstat table_Live host1 ''/tmp/a'' = Inl (PathError ''lstat'' ''/tmp/a'' ErrNotExist) \<and>
   os_IsNotExist (PathError ''lstat'' ''/tmp/a'' ErrNotExist) \<and>
   simulatedSystem_CreateFile table_Live ''/tmp/a'' 420 host1 = (Inr discardWriter, host1) \<and>
   discardWriter_writes discardWriter [''hi'', ''there''] host1 = ([(2, None), (5, None)], host1)"
proof -
  have l1: "os_Lstat table_Live host1 ''/etc/motd'' = Inr 5"
    and l2: "os_Lstat table_Live host1 ''/root/key'' =
      Inl (PathError ''lstat'' ''/root/key'' (Foreign ''permission denied''))"
    and l3: "os_Lstat table_Live host1 ''/tmp/a'' = Inl (PathError ''lstat'' ''/tmp/a'' ErrNotExist)"
    by (simp_all add: table_Live_def table_lstat_def host1_def)
  have n2: "\<not> os_IsNotExist (PathError ''lstat'' ''/root/key'' (Foreign ''permission denied''))"
    and n3: "os_IsNotExist (PathError ''lstat'' ''/tmp/a'' ErrNotExist)"
    by (simp_all add: os_IsNotExist_def)
  note t1 = simulatedSystem_CreateFile_result [where L = table_Live and h = host1
      and path = "''/etc/motd''" and info = 5 and mode = 420]
  note t2 = simulatedSystem_CreateFile_result [where L = table_Live and h = host1
      and path = "''/root/key''" and mode = 420
      and e = "PathError ''lstat'' ''/root/key'' (Foreign ''permission denied'')"]
  note t3 = simulatedSystem_CreateFile_result [where L = table_Live and h = host1
      and path = "''/tmp/a''" and mode = 420 and e = "PathError ''lstat'' ''/tmp/a'' ErrNotExist"
      and d = discardWriter and ps = "[''hi'', ''there'']"]
  from t1 l1 have "simulatedSystem_CreateFile table_Live ''/etc/motd'' 420 host1 =
     (Inl (PathError ''open'' ''/etc/motd'' ErrExist), host1)" by blast
  moreover from t2 l2 n2 have "simulatedSystem_CreateFile table_Live ''/root/key'' 420 host1 =
     (Inl (PathError ''lstat'' ''/root/key'' (Foreign ''permission denied'')), host1)" by blast
  moreover from t3 l3 n3 have "simulatedSystem_CreateFile table_Live ''/tmp/a'' 420 host1 =
     (Inr discardWriter, host1)" by blast
  moreover from t3 have "discardWriter_writes discardWriter [''hi'', ''there''] host1 =
     ([(2, None), (5, None)], host1)" by simp
  ultimately show ?thesis using l1 l2 l3 n2 n3 by blast
qed

subsection \<open>Reading after a simulated write\<close>

lemma handle_call_wrote: "wrote ro \<Longrightarrow> wrote (fst (snd (handle_call L c ro h)))"
  by (cases c)
    (simp_all add: readOnlyFile_Read_def readOnlyFile_Write_def readOnlyFile_Seek_def
      readOnlyFile_Truncate_def readOnlyFile_Close_def split: prod.splits)

lemma handle_call_write: "is_write c \<Longrightarrow> wrote (fst (snd (handle_call L c ro h)))"
  by (cases c) (simp_all add: readOnlyFile_Write_def readOnlyFile_Truncate_def)

lemma handle_call_read_failed: "wrote ro \<Longrightarrow> read_failed c (fst (handle_call L c ro h))"
  by (cases c)
    (simp_all add: readOnlyFile_Read_def readOnlyFile_Write_def readOnlyFile_Seek_def
      readOnlyFile_Truncate_def readOnlyFile_Close_def split: prod.splits)

lemma handle_calls_read_failed:
  "wrote ro \<Longrightarrow> list_all2 read_failed cs (fst (handle_calls L cs ro h))"
proof (induction cs arbitrary: ro h)
  case Nil
  show ?case by simp
next
  case (Cons c cs)
  obtain r ro' h' where c: "handle_call L c ro h = (r, ro', h')"
    by (cases "handle_call L c ro h")
  from Cons.prems handle_call_wrote [of ro L c h] c have w: "wrote ro'" by simp
  from Cons.prems handle_call_read_failed [of ro c L h] c have r: "read_failed c r" by simp
  from Cons.IH [OF w, of h'] c r show ?case
    by (cases "handle_calls L cs ro' h'") simp
qed

lemma handle_calls_append:
  "handle_calls L (xs @ ys) ro h =
     (case handle_calls L xs ro h of
        (rs, ro', h') \<Rightarrow>
          (case handle_calls L ys ro' h' of (rs', ro'', h'') \<Rightarrow> (rs @ rs', ro'', h'')))"
  by (induction xs arbitrary: ro h) (simp_all split: prod.splits)

lemma handle_calls_length: "length (fst (handle_calls L cs ro h)) = length cs"
proof (induction cs arbitrary: ro h)
  case Nil
  show ?case by simp
next
  case (Cons c cs)
  obtain r ro' h' where c: "handle_call L c ro h = (r, ro', h')"
    by (cases "handle_call L c ro h")
  with Cons [of ro' h'] show ?case
    by (cases "handle_calls L cs ro' h'") simp
qed

lemma handle_calls_after_write:
  assumes "is_write c"
  shows "list_all2 read_failed post
           (drop (Suc (length pre)) (fst (handle_calls L (pre @ c # post) ro h)))"
proof -
  obtain rs ro1 h1 where pre: "handle_calls L pre ro h = (rs, ro1, h1)"
    by (cases "handle_calls L pre ro h")
  obtain r ro2 h2 where c: "handle_call L c ro1 h1 = (r, ro2, h2)"
    by (cases "handle_call L c ro1 h1")
  obtain rs' ro3 h3 where post: "handle_calls L post ro2 h2 = (rs', ro3, h3)"
    by (cases "handle_calls L post ro2 h2")
  from assms handle_call_write [of c L ro1 h1] c have "wrote ro2" by simp
  from handle_calls_read_failed [OF this, of post L h2] post
  have rf: "list_all2 read_failed post rs'" by simp
  from handle_calls_length [of L pre ro h] pre have "length rs = length pre" by simp
  with pre c post rf show ?thesis
    by (simp add: handle_calls_append)
qed

text \<open>
  Claim C5. For every handle of the simulated backend (so for every one that \<^verbatim>\<open>OpenFile\<close>
  returns) and every sequence of calls on it: \<^verbatim>\<open>Write\<close> and \<^verbatim>\<open>Truncate\<close> report success,
  and change neither the file below the handle nor the host; on a handle that has been
  written to, \<^verbatim>\<open>Read\<close> and \<^verbatim>\<open>Seek\<close> return an error and nothing else; and so in every
  sequence of calls, each \<^verbatim>\<open>Read\<close> and each \<^verbatim>\<open>Seek\<close> that comes after a \<^verbatim>\<open>Write\<close> or a
  \<^verbatim>\<open>Truncate\<close> fails.
\<close>

theorem readOnlyFile_read_after_write:
  "readOnlyFile_Write ro p h = ((length p, None), ro\<lparr>wrote := True\<rparr>, h) \<and>
   readOnlyFile_Truncate ro sz h = (None, ro\<lparr>wrote := True\<rparr>, h) \<and>
   snd (snd (handle_calls L cs ro h)) = h \<and>
   (wrote ro \<longrightarrow>
      readOnlyFile_Read L ro len_p h =
        (([], Some (ErrorsNew ''read after simulated write'')), ro, h) \<and>
      readOnlyFile_Seek L ro offset whence h =
        ((0, Some (ErrorsNew ''seek after simulated write'')), ro, h)) \<and>
   (is_write c \<longrightarrow>
      list_all2 read_failed post
        (drop (Suc (length pre)) (fst (handle_calls L (pre @ c # post) ro h))))"
  by (simp add: handle_calls_after_write handle_calls_host readOnlyFile_Write_def
      readOnlyFile_Truncate_def readOnlyFile_Read_def readOnlyFile_Seek_def)

theorem readOnlyFile_read_after_write_witness:
  "simulatedSystem_OpenFile table_Live ''/etc/motd'' host1 =
     (Inr \<lparr>f = (''/etc/motd'', 0), wrote = False\<rparr>, host1) \<and>
   is_write (CallWrite ''bye'') \<and>
   handle_calls table_Live [CallRead 2, CallWrite ''bye'', CallRead 2, CallSeek 0 0, CallClose]
     \<lparr>f = (''/etc/motd'', 0), wrote = False\<rparr> host1 =
     ([RetRead ''he'' None, RetWrite 3 None,
       RetRead [] (Some (ErrorsNew ''read after simulated write'')),
       RetSeek 0 (Some (ErrorsNew ''seek after simulated write'')), RetClose None],
      \<lparr>f = (''/etc/motd'', 2), wrote = True\<rparr>, host1) \<and>
   list_all2 read_failed [CallRead 2, CallSeek 0 0, CallClose]
     (drop (Suc (length [CallRead 2])) (fst (handle_calls table_Live
        ([CallRead 2] @ CallWrite ''bye'' # [CallRead 2, CallSeek 0 0, CallClose])
        \<lparr>f = (''/etc/motd'', 0), wrote = False\<rparr> host1)))"
proof -
  have w: "is_write (CallWrite ''bye'')" by simp
  have run: "handle_calls table_Live
       [CallRead 2, CallWrite ''bye'', CallRead 2, CallSeek 0 0, CallClose]
       \<lparr>f = (''/etc/motd'', 0), wrote = False\<rparr> host1 =
     ([RetRead ''he'' None, RetWrite 3 None,
       RetRead [] (Some (ErrorsNew ''read after simulated write'')),
       RetSeek 0 (Some (ErrorsNew ''seek after simulated write'')), RetClose None],
      \<lparr>f = (''/etc/motd'', 2), wrote = True\<rparr>, host1)"
    by (simp add: readOnlyFile_Read_def readOnlyFile_Write_def readOnlyFile_Seek_def
        readOnlyFile_Close_def table_Live_def table_read_def host1_def)
  have opened: "simulatedSystem_OpenFile table_Live ''/etc/motd'' host1 =
     (Inr \<lparr>f = (''/etc/motd'', 0), wrote = False\<rparr>, host1)"
    by (simp add: simulatedSystem_OpenFile_def table_Live_def host1_def)
  from readOnlyFile_read_after_write [where c = "CallWrite ''bye''" and pre = "[CallRead 2]"
      and post = "[CallRead 2, CallSeek 0 0, CallClose]" and L = table_Live
      and ro = "\<lparr>f = (''/etc/motd'', 0), wrote = False\<rparr>" and h = host1] w
  have "list_all2 read_failed [CallRead 2, CallSeek 0 0, CallClose]
     (drop (Suc (length [CallRead 2])) (fst (handle_calls table_Live
        ([CallRead 2] @ CallWrite ''bye'' # [CallRead 2, CallSeek 0 0, CallClose])
        \<lparr>f = (''/etc/motd'', 0), wrote = False\<rparr> host1)))"
    by blast
  with w run opened show ?thesis by blast
qed


section \<open>exec: the logging wrapper\<close>

lemma last_end_line: "last (end_line b) = CHR 0x0A"
  by (simp add: end_line_def)

lemma take_end_line: "take (length a) (end_line (a @ b)) = a"
  by (simp add: end_line_def)

lemma Infof_stderr:
  "stderr (logger_Infof l msg lw) =
     stderr lw @ (if quiet l then [] else [end_line (writeLogHead [] ''INFO'' (now lw) @ msg)])"
  by (simp add: logger_Infof_def Let_def)

lemma Infof_now: "now (logger_Infof l msg lw) = now lw"
  by (simp add: logger_Infof_def Let_def)



lemma Infof_quiet: "quiet l \<Longrightarrow> logger_Infof l msg lw = lw"
  by (simp add: logger_Infof_def)

lemma Infof_one_line:
  "\<not> quiet l \<Longrightarrow>
   \<exists>line. last line = CHR 0x0A \<and>
      take (length (writeLogHead [] ''INFO'' (now lw))) line = writeLogHead [] ''INFO'' (now lw) \<and>
      stderr (logger_Infof l msg lw) = stderr lw @ [line]"
  by (simp add: Infof_stderr last_end_line take_end_line)

text \<open>
  Claim C6, as amended. For every wrapped system and every call, the logging wrapper
  returns exactly what the same call on the wrapped system returns and leaves the wrapped
  system in the same state; the only difference is the log. A read (\<^verbatim>\<open>Lstat\<close>,
  \<^verbatim>\<open>Readlink\<close>, \<^verbatim>\<open>OpenFile\<close>, \<^verbatim>\<open>OwnerInfo\<close>, \<^verbatim>\<open>LookupUser\<close>, \<^verbatim>\<open>LookupGroup\<close>) writes
  nothing. Each of \<^verbatim>\<open>Mkdir\<close>, \<^verbatim>\<open>Remove\<close>, \<^verbatim>\<open>Symlink\<close>, \<^verbatim>\<open>Chmod\<close>, \<^verbatim>\<open>Chown\<close>,
  \<^verbatim>\<open>CreateFile\<close> and \<^verbatim>\<open>Run\<close> makes one write to standard error, which starts with the log
  head and ends with a newline, unless the logger is quiet: then it writes nothing.
\<close>

theorem sysLogger_refines:
  "fst (call (sysLogger_System l) c (s, lw)) = fst (call (System l) c s) \<and>
   fst (snd (call (sysLogger_System l) c (s, lw))) = snd (call (System l) c s) \<and>
   now (snd (snd (call (sysLogger_System l) c (s, lw)))) = now lw \<and>
   (if is_mutation c \<and> \<not> quiet (log l) then
      \<exists>line. last line = CHR 0x0A \<and>
        take (length (writeLogHead [] ''INFO'' (now lw))) line
          = writeLogHead [] ''INFO'' (now lw) \<and>
        stderr (snd (snd (call (sysLogger_System l) c (s, lw)))) = stderr lw @ [line]
    else stderr (snd (snd (call (sysLogger_System l) c (s, lw)))) = stderr lw)"
proof (cases c)
  case (CallMkdir path mode)
  then show ?thesis
    by (cases "quiet (log l)")
      (simp_all add: sysLogger_System_def sysLogger_Mkdir_def Let_def Infof_quiet Infof_one_line Infof_now
        split: prod.splits)
next
  case (CallRemove path)
  then show ?thesis
    by (cases "quiet (log l)")
      (simp_all add: sysLogger_System_def sysLogger_Remove_def Let_def Infof_quiet Infof_one_line Infof_now
        split: prod.splits)
next
  case (CallSymlink oldname newname)
  then show ?thesis
    by (cases "quiet (log l)")
      (simp_all add: sysLogger_System_def sysLogger_Symlink_def Let_def Infof_quiet Infof_one_line Infof_now
        split: prod.splits)
next
  case (CallCreateFile path mode)
  then show ?thesis
    by (cases "quiet (log l)")
      (simp_all add: sysLogger_System_def sysLogger_CreateFile_def Let_def Infof_quiet Infof_one_line Infof_now
        split: prod.splits)
next
  case (CallChmod path mode)
  then show ?thesis
    by (cases "quiet (log l)")
      (simp_all add: sysLogger_System_def sysLogger_Chmod_def Let_def Infof_quiet Infof_one_line Infof_now
        split: prod.splits)
next
  case (CallChown path uid gid)
  then show ?thesis
    by (cases "quiet (log l)")
      (simp_all add: sysLogger_System_def sysLogger_Chown_def Let_def Infof_quiet Infof_one_line Infof_now
        split: prod.splits)
next
  case (CallRun cmd)
  then show ?thesis
    by (cases "quiet (log l)")
      (simp_all add: sysLogger_System_def sysLogger_Run_def Let_def Infof_quiet Infof_one_line Infof_now
        split: prod.splits)
qed (simp_all add: sysLogger_System_def promoted_def split: prod.splits)

text \<open>
  Claim C6 as stated fails when the logger is quiet (flags \<^verbatim>\<open>-s\<close> and \<^verbatim>\<open>-q\<close> together):
  \<^verbatim>\<open>Mkdir\<close> through the wrapper then emits no log line at all.
\<close>

theorem sysLogger_quiet_counterexample:
  "stderr (snd (snd (sysLogger_Mkdir
      \<lparr>System = simulatedSystem table_Live, log = \<lparr>quiet = True\<rparr>\<rparr> ''/srv'' 493 (host1, log0))))
     = stderr log0 \<and>
   \<not> (\<exists>line. stderr (snd (snd (sysLogger_Mkdir
      \<lparr>System = simulatedSystem table_Live, log = \<lparr>quiet = True\<rparr>\<rparr> ''/srv'' 493 (host1, log0))))
     = stderr log0 @ [line])"
  by (simp add: sysLogger_Mkdir_def logger_Infof_def simulatedSystem_def
      simulatedSystem_Mkdir_def)

theorem sysLogger_refines_witness:
  "call (sysLogger_System \<lparr>System = simulatedSystem table_Live, log = \<lparr>quiet = False\<rparr>\<rparr>)
     (CallChmod ''/srv'' (493 OR ModeSetuid)) (host1, log0) =
   (RetError None, host1,
    log0\<lparr>stderr := [''mcm-exec: 2016-05-01T12:00:00  INFO: chmod 4755 /srv'' @ [CHR 0x0A]]\<rparr>) \<and>
   fst (call (sysLogger_System \<lparr>System = simulatedSystem table_Live, log = \<lparr>quiet = False\<rparr>\<rparr>)
     (CallChmod ''/srv'' (493 OR ModeSetuid)) (host1, log0)) =
   fst (call (simulatedSystem table_Live) (CallChmod ''/srv'' (493 OR ModeSetuid)) host1)"
proof -
  have "call (sysLogger_System \<lparr>System = simulatedSystem table_Live, log = \<lparr>quiet = False\<rparr>\<rparr>)
     (CallChmod ''/srv'' (493 OR ModeSetuid)) (host1, log0) =
   (RetError None, host1,
    log0\<lparr>stderr := [''mcm-exec: 2016-05-01T12:00:00  INFO: chmod 4755 /srv'' @ [CHR 0x0A]]\<rparr>)"
    by code_simp
  moreover have "fst (call (sysLogger_System
        \<lparr>System = simulatedSystem table_Live, log = \<lparr>quiet = False\<rparr>\<rparr>)
     (CallChmod ''/srv'' (493 OR ModeSetuid)) (host1, log0)) =
   fst (call (simulatedSystem table_Live) (CallChmod ''/srv'' (493 OR ModeSetuid)) host1)"
    using sysLogger_refines [of "\<lparr>System = simulatedSystem table_Live, log = \<lparr>quiet = False\<rparr>\<rparr>"
        "CallChmod ''/srv'' (493 OR ModeSetuid)" host1 log0]
    by simp
  ultimately show ?thesis by blast
qed

section \<open>exec: reporting an error with output\<close>

text \<open>
  Claim C8, as amended. When a logger that is not quiet reports an applier error that
  carries captured command output, it writes the message line, ended by a newline (and
  followed by at most one more newline), and then exactly the bytes of the output,
  unmodified. A quiet logger writes the message line and not the output.
\<close>

theorem logger_Error_output:
  assumes "Output \<noteq> []"
  shows "if quiet l then
           stderr (logger_Error l (ExeclibError m Output) lw) =
             stderr lw @ [end_line (writeLogHead [] ''ERROR'' (now lw) @ m)]
         else
           \<exists>sep. (sep = [] \<or> sep = [CHR 0x0A]) \<and>
             stderr (logger_Error l (ExeclibError m Output) lw) =
               stderr lw @ [end_line (writeLogHead [] ''ERROR'' (now lw) @ m) @ sep, Output]"
  using assms by (simp add: logger_Error_def Let_def)

text \<open>
  Claim C8 as stated fails for a quiet logger (flag \<^verbatim>\<open>-q\<close>, "suppress info messages and
  failure output"): the error has the non-empty output \<open>boom\<close>, and only the message line is
  written.
\<close>

theorem logger_Error_quiet_counterexample:
  "stderr (logger_Error \<lparr>quiet = True\<rparr> (ExeclibError ''exit status 1'' ''boom'') log0) =
     [''mcm-exec: 2016-05-01T12:00:00 ERROR: exit status 1'' @ [CHR 0x0A]]"
  by (simp add: logger_Error_def Let_def log0_def writeLogHead_def pad_left_def end_line_def)

theorem logger_Error_output_witness:
  "''boom'' \<noteq> [] \<and>
   stderr (logger_Error \<lparr>quiet = False\<rparr> (ExeclibError ''exit status 1'' (''boom'' @ [CHR 0x0A])) log0) =
     [''mcm-exec: 2016-05-01T12:00:00 ERROR: exit status 1'' @ [CHR 0x0A], ''boom'' @ [CHR 0x0A]] \<and>
   (\<exists>sep. (sep = [] \<or> sep = [CHR 0x0A]) \<and>
      stderr (logger_Error \<lparr>quiet = False\<rparr> (ExeclibError ''exit status 1'' ''boom'') log0) =
        stderr log0 @
          [end_line (writeLogHead [] ''ERROR'' (now log0) @ ''exit status 1'') @ sep, ''boom''])"
proof -
  have ne: "''boom'' \<noteq> []" by simp
  have "stderr (logger_Error \<lparr>quiet = False\<rparr>
      (ExeclibError ''exit status 1'' (''boom'' @ [CHR 0x0A])) log0) =
     [''mcm-exec: 2016-05-01T12:00:00 ERROR: exit status 1'' @ [CHR 0x0A], ''boom'' @ [CHR 0x0A]]"
    by (simp add: logger_Error_def Let_def log0_def writeLogHead_def pad_left_def end_line_def)
  moreover from logger_Error_output [OF ne, of "\<lparr>quiet = False\<rparr>" "''exit status 1''" log0]
  have "\<exists>sep. (sep = [] \<or> sep = [CHR 0x0A]) \<and>
      stderr (logger_Error \<lparr>quiet = False\<rparr> (ExeclibError ''exit status 1'' ''boom'') log0) =
        stderr log0 @
          [end_line (writeLogHead [] ''ERROR'' (now log0) @ ''exit status 1'') @ sep, ''boom'']"
    by simp
  ultimately show ?thesis using ne by blast
qed

section \<open>exec: the exit status\<close>

lemma logger_Fatal_status: "fst (logger_Fatal l e lw) = 1"
  by (simp add: logger_Fatal_def)

lemma main_apply_status:
  "fst (main_apply E fl cat lw) = (case fst (Apply E fl cat lw) of Some e \<Rightarrow> 1 | None \<Rightarrow> 0)"
  by (cases "Apply E fl cat lw") (simp add: main_apply_def logger_Fatal_status split: option.splits)

lemma main_status_range: "fst (main E fl args lw) \<in> {0, 1, 2}"
  by (simp add: main_def logger_Fatal_status main_apply_status
      split: list.splits sum.splits option.splits)

lemma main_status_2:
  "(fst (main E fl args lw) = 2) = (\<not> versionMode fl \<and> length args > 1)"
  by (simp add: main_def logger_Fatal_status main_apply_status
      split: list.splits sum.splits option.splits)

lemma main_read_failures:
  "\<not> versionMode fl \<Longrightarrow> readCatalog E (Stdin E) = Inl e \<Longrightarrow> fst (main E fl [] lw) = 1"
  "\<not> versionMode fl \<Longrightarrow> Open E a = Inl e \<Longrightarrow> fst (main E fl [a] lw) = 1"
  "\<not> versionMode fl \<Longrightarrow> Open E a = Inr fh \<Longrightarrow> readCatalog E fh = Inl e \<Longrightarrow>
     fst (main E fl [a] lw) = 1"
  by (simp_all add: main_def logger_Fatal_status)

lemma main_applies:
  "\<not> versionMode fl \<Longrightarrow> readCatalog E (Stdin E) = Inr cat \<Longrightarrow>
     fst (main E fl [] lw) = (case fst (Apply E fl cat lw) of Some e' \<Rightarrow> 1 | None \<Rightarrow> 0)"
  "\<not> versionMode fl \<Longrightarrow> Open E a = Inr fh \<Longrightarrow> readCatalog E fh = Inr cat \<Longrightarrow>
     fst (main E fl [a] lw) =
        (case fst (Apply E fl cat
                 (case Close E fh of
                    Some e' \<Rightarrow> logger_Error \<lparr>quiet = log_quiet fl\<rparr> e' lw | None \<Rightarrow> lw)) of
           Some e' \<Rightarrow> 1 | None \<Rightarrow> 0)"
  by (simp_all add: main_def main_apply_status split: option.splits)

lemma main_version: "versionMode fl \<Longrightarrow> main E fl args lw = (0, lw)"
  by (simp add: main_def)

text \<open>
  Claim C7, as amended. The exit status of the front end is 0, 1 or 2. With \<^verbatim>\<open>-version\<close>
  it shows the version and exits with 0, whatever the arguments. Otherwise it is 2 exactly
  when more than one argument is left after the flags. It is 1 when the catalog cannot
  be read, from standard input or from the file named (which may also fail to open), and
  when \<^verbatim>\<open>execlib.Apply\<close> returns an error; it is 0 when the catalog is read and applied
  without error. An error of closing the catalog file is logged and does not change the
  status.
\<close>

theorem main_exit_status:
  "fst (main E fl args lw) \<in> {0, 1, 2} \<and>
   ((fst (main E fl args lw) = 2) = (\<not> versionMode fl \<and> length args > 1)) \<and>
   (\<not> versionMode fl \<and> args = [] \<and> readCatalog E (Stdin E) = Inl e \<longrightarrow>
      fst (main E fl args lw) = 1) \<and>
   (\<not> versionMode fl \<and> args = [a] \<and> Open E a = Inl e \<longrightarrow> fst (main E fl args lw) = 1) \<and>
   (\<not> versionMode fl \<and> args = [a] \<and> Open E a = Inr fh \<and> readCatalog E fh = Inl e \<longrightarrow>
      fst (main E fl args lw) = 1) \<and>
   (\<not> versionMode fl \<and> args = [] \<and> readCatalog E (Stdin E) = Inr cat \<longrightarrow>
      fst (main E fl args lw) = (case fst (Apply E fl cat lw) of Some e' \<Rightarrow> 1 | None \<Rightarrow> 0)) \<and>
   (\<not> versionMode fl \<and> args = [a] \<and> Open E a = Inr fh \<and> readCatalog E fh = Inr cat \<longrightarrow>
      fst (main E fl args lw) =
        (case fst (Apply E fl cat
                 (case Close E fh of
                    Some e' \<Rightarrow> logger_Error \<lparr>quiet = log_quiet fl\<rparr> e' lw | None \<Rightarrow> lw)) of
           Some e' \<Rightarrow> 1 | None \<Rightarrow> 0)) \<and>
   (versionMode fl \<longrightarrow> main E fl args lw = (0, lw))"
proof (intro conjI impI)
  show "fst (main E fl args lw) \<in> {0, 1, 2}"
    by (rule main_status_range)
  show "(fst (main E fl args lw) = 2) = (\<not> versionMode fl \<and> length args > 1)"
    by (rule main_status_2)
qed (simp_all add: main_read_failures main_applies main_version)

text \<open>
  Claim C7 as stated fails with \<^verbatim>\<open>-version\<close>: two arguments are left after the flags, and
  the exit status is 0, not 2.
\<close>

theorem main_version_counterexample:
  "versionMode flags_version \<and> length [''a'', ''b''] > 1 \<and>
   fst (main front_env flags_version [''a'', ''b''] log0) = 0 \<and>
   fst (main front_env flags_version [''a'', ''b''] log0) \<noteq> 2"
  by (simp add: main_def flags_version_def flags0_def)

theorem main_exit_status_witness:
  "fst (main front_env flags0 [] log0) = 0 \<and>
   fst (main front_env flags0 [''failing''] log0) = 1 \<and>
   fst (main front_env flags0 [''garbage''] log0) = 1 \<and>
   fst (main front_env flags0 [''missing''] log0) = 1 \<and>
   fst (main front_env flags0 [''a'', ''b''] log0) = 2"
proof -
  have v: "\<not> versionMode flags0" by (simp add: flags0_def)
  have r0: "readCatalog front_env (Stdin front_env) = Inr ''stdin''"
    by (simp add: readCatalog_def front_env_def)
  have o1: "Open front_env ''failing'' = Inr ''failing''"
    and r1: "readCatalog front_env ''failing'' = Inr ''failing''"
    and o2: "Open front_env ''garbage'' = Inr ''garbage''"
    and r2: "readCatalog front_env ''garbage'' = Inl (FmtErrorf ''read catalog: unexpected EOF'')"
    and o3: "Open front_env ''missing'' = Inl (PathError ''open'' ''missing'' ErrNotExist)"
    by (simp_all add: readCatalog_def front_env_def)
  have a0: "fst (Apply front_env flags0 ''stdin'' lw) = None"
    and a1: "fst (Apply front_env flags0 ''failing'' lw)
      = Some (ExeclibError ''apply: exit status 1'' ''boom'')" for lw
    by (simp_all add: front_env_def)
  have c: "Close front_env ''failing'' = None" by (simp add: front_env_def)
  note t = main_exit_status [where E = front_env and fl = flags0 and lw = log0]
  from t [where args = "[]" and cat = "''stdin''"] v r0 a0
  have "fst (main front_env flags0 [] log0) = 0" by simp
  moreover from t [where args = "[''failing'']" and a = "''failing''" and fh = "''failing''"
      and cat = "''failing''"] v o1 r1 a1 c
  have "fst (main front_env flags0 [''failing''] log0) = 1" by simp
  moreover from t [where args = "[''garbage'']" and a = "''garbage''" and fh = "''garbage''"
      and e = "FmtErrorf ''read catalog: unexpected EOF''"] v o2 r2
  have "fst (main front_env flags0 [''garbage''] log0) = 1" by simp
  moreover from t [where args = "[''missing'']" and a = "''missing''"
      and e = "PathError ''open'' ''missing'' ErrNotExist"] v o3
  have "fst (main front_env flags0 [''missing''] log0) = 1" by simp
  moreover from t [where args = "[''a'', ''b'']"] v
  have "fst (main front_env flags0 [''a'', ''b''] log0) = 2" by simp
  ultimately show ?thesis by blast
qed


section \<open>luacat: identifiers from names\<close>

lemma idHash_bit0: "bit (idHash sha s) 0"
  by (simp add: idHash_def Let_def bit_or_iff)

lemma idHash_nonzero: "idHash sha s \<noteq> 0"
proof
  assume "idHash sha s = 0"
  with idHash_bit0 [of sha s] show False by simp
qed

lemma deps_loop_string:
  "deps_loop sha ds = Inr vs \<Longrightarrow> j < length ds \<Longrightarrow> ds ! j = LuaString n \<Longrightarrow>
   vs ! j = idHash sha n"
proof (induction ds arbitrary: vs j)
  case Nil
  then show ?case by simp
next
  case (Cons d ds)
  then show ?case
    by (cases j) (auto split: sum.splits option.splits if_splits)
qed

lemma deps_loop_id:
  "deps_loop sha ds = Inr vs \<Longrightarrow> j < length ds \<Longrightarrow> ds ! j = LuaId v c \<Longrightarrow> vs ! j = v"
proof (induction ds arbitrary: vs j)
  case Nil
  then show ?case by simp
next
  case (Cons d ds)
  then show ?case
    by (cases j) (auto split: sum.splits option.splits if_splits)
qed

lemma resourcefunc_string_id:
  "resourcefunc sha cs [LuaString n, dv, tv] = Inr res \<Longrightarrow> setId res = idHash sha n"
  by (auto simp: resourcefunc_def Let_def
      split: if_splits lua_value.splits option.splits sum.splits)

lemma resourcefunc_hash_id:
  "hashfunc sha [LuaString n] = Inr nv \<Longrightarrow> resourcefunc sha cs [nv, dv, tv] = Inr res \<Longrightarrow>
   setId res = idHash sha n"
  by (auto simp: hashfunc_def resourcefunc_def Let_def
      split: if_splits lua_value.splits option.splits sum.splits)

lemma resourcefunc_deps:
  "resourcefunc sha cs [nv, LuaTable ds m t, tv] = Inr res \<Longrightarrow>
   deps_loop sha ds = Inr (initDependencies res)"
  by (auto simp: resourcefunc_def Let_def
      split: if_splits lua_value.splits option.splits sum.splits)

lemma resourcefunc_dep_string:
  assumes "resourcefunc sha cs [nv, LuaTable ds m t, tv] = Inr res"
    and "j < length ds" and "ds ! j = LuaString n"
  shows "initDependencies res ! j = idHash sha n"
  using deps_loop_string [OF resourcefunc_deps [OF assms(1)] assms(2) assms(3)] .

lemma resourcefunc_dep_hash:
  assumes "resourcefunc sha cs [nv, LuaTable ds m t, tv] = Inr res"
    and "j < length ds" and "hashfunc sha [LuaString n] = Inr (ds ! j)"
  shows "initDependencies res ! j = idHash sha n"
proof -
  from assms(3) have "ds ! j = LuaId (idHash sha n) n"
    by (simp add: hashfunc_def Let_def)
  from deps_loop_id [OF resourcefunc_deps [OF assms(1)] assms(2) this] show ?thesis .
qed

text \<open>
  Claim C9. For every input string, and whatever the digest is, \<open>idHash\<close> returns a 64-bit
  identifier whose lowest bit is set, so it is never zero. Hence every resource id that
  \<^verbatim>\<open>resourcefunc\<close> derives from a name, given as a string or through \<^verbatim>\<open>mcm.hash\<close>, is
  nonzero, and so is every dependency id derived from a name. \<open>idHash\<close> is a function of
  the string alone: a dependency given by the same string as a resource's name is that
  resource's id.
\<close>

theorem idHash_nonzero_deterministic:
  "idHash sha s \<noteq> 0 \<and> bit (idHash sha s) 0 \<and>
   hashfunc sha [LuaString s] = Inr (LuaId (idHash sha s) s) \<and>
   (resourcefunc sha cs [LuaString s, dv, tv] = Inr res \<longrightarrow>
      setId res = idHash sha s \<and> setId res \<noteq> 0) \<and>
   (resourcefunc sha cs [LuaId (idHash sha s) s, dv, tv] = Inr res \<longrightarrow>
      setId res = idHash sha s \<and> setId res \<noteq> 0) \<and>
   (resourcefunc sha cs [nv, LuaTable ds m t, tw] = Inr res' \<and> j < length ds \<and>
    (ds ! j = LuaString s \<or> ds ! j = LuaId (idHash sha s) s) \<longrightarrow>
      initDependencies res' ! j = idHash sha s \<and> initDependencies res' ! j \<noteq> 0 \<and>
      (resourcefunc sha cs [LuaString s, dv, tv] = Inr res \<longrightarrow>
         initDependencies res' ! j = setId res))"
proof -
  have h: "hashfunc sha [LuaString s] = Inr (LuaId (idHash sha s) s)"
    by (simp add: hashfunc_def Let_def)
  have r1: "resourcefunc sha cs [LuaString s, dv, tv] = Inr res \<longrightarrow>
      setId res = idHash sha s \<and> setId res \<noteq> 0"
    by (auto simp: resourcefunc_string_id idHash_nonzero)
  have r2: "resourcefunc sha cs [LuaId (idHash sha s) s, dv, tv] = Inr res \<longrightarrow>
      setId res = idHash sha s \<and> setId res \<noteq> 0"
    using resourcefunc_hash_id [OF h, of cs dv tv res] by (auto simp: idHash_nonzero)
  have d: "resourcefunc sha cs [nv, LuaTable ds m t, tw] = Inr res' \<and> j < length ds \<and>
    (ds ! j = LuaString s \<or> ds ! j = LuaId (idHash sha s) s) \<longrightarrow>
      initDependencies res' ! j = idHash sha s"
    using resourcefunc_dep_string [of sha cs nv ds m t tw res' j s]
      resourcefunc_dep_hash [of sha cs nv ds m t tw res' j s] h
    by auto
  from d r1 show ?thesis
    using idHash_nonzero [of sha s] idHash_bit0 [of sha s] h r2 by auto
qed

theorem idHash_nonzero_deterministic_witness:
  "resourcefunc length_digest Inr [LuaString ''pkg'', LuaTable [] None (), LuaTable [] (Some 0) ()]
     = Inr \<lparr>setId = 19, setComment = ''pkg'', initDependencies = [], setBody = Noop\<rparr> \<and>
   resourcefunc length_digest Inr
     [LuaString ''service'', LuaTable [LuaString ''pkg''] None (), LuaTable [] (Some 0) ()]
     = Inr \<lparr>setId = 23, setComment = ''service'', initDependencies = [19], setBody = Noop\<rparr> \<and>
   idHash length_digest ''pkg'' = 19 \<and> (19 :: u64) \<noteq> 0"
proof -
  have i: "idHash length_digest ''pkg'' = 19" and i': "idHash length_digest ''service'' = 23"
    by (simp_all add: idHash_def idHashPrefix_def length_digest_def hash_at_def Let_def)
  have a: "resourcefunc length_digest Inr
      [LuaString ''pkg'', LuaTable [] None (), LuaTable [] (Some 0) ()]
     = Inr \<lparr>setId = 19, setComment = ''pkg'', initDependencies = [], setBody = Noop\<rparr>"
    by (simp add: resourcefunc_def i Let_def)
  have b: "resourcefunc length_digest Inr
     [LuaString ''service'', LuaTable [LuaString ''pkg''] None (), LuaTable [] (Some 0) ()]
     = Inr \<lparr>setId = 23, setComment = ''service'', initDependencies = [19], setBody = Noop\<rparr>"
    by (simp add: resourcefunc_def i i' Let_def)
  from idHash_nonzero_deterministic [where sha = length_digest and s = "''pkg''" and cs = Inr
      and dv = "LuaTable [] None ()" and tv = "LuaTable [] (Some 0) ()"
      and res = "\<lparr>setId = 19, setComment = ''pkg'', initDependencies = [], setBody = Noop\<rparr>"
      and nv = "LuaString ''service''" and ds = "[LuaString ''pkg'']" and m = None and t = "()"
      and tw = "LuaTable [] (Some 0) ()" and j = 0
      and res' = "\<lparr>setId = 23, setComment = ''service'', initDependencies = [19], setBody = Noop\<rparr>"]
    a b i
  show ?thesis by simp
qed

section \<open>depgraph: marking a node\<close>

lemma map_of_update_nodes:
  "map_of (update_nodes P F g) k = map_option (if P k then F else (\<lambda>n. n)) (map_of g k)"
  by (induction g) (auto simp: update_nodes_def)

lemma fst_update_nodes: "fst ` set (update_nodes P F g) = fst ` set g"
  by (induction g) (auto simp: update_nodes_def)

lemma successors_dom: "map_of g a = None \<Longrightarrow> successors g a = []"
  by (simp add: successors_def)

lemma descendants_seen: "set seen \<subseteq> set (descendants g xs seen)"
  by (induction g xs seen rule: descendants.induct) auto

lemma descendants_stack:
  "x \<in> set xs \<Longrightarrow> map_of g x \<noteq> None \<Longrightarrow> x \<in> set (descendants g xs seen)"
proof (induction g xs seen rule: descendants.induct)
  case (1 g seen)
  then show ?case by simp
next
  case (2 g y ys seen)
  show ?case
  proof (cases "y \<in> set seen \<or> map_of g y = None")
    case True
    with 2 descendants_seen [of seen g ys] show ?thesis by auto
  next
    case False
    with 2 descendants_seen [of "y # seen" g "successors g y @ ys"] show ?thesis by auto
  qed
qed

lemma descendants_closed:
  assumes "\<forall>a \<in> set seen. \<forall>b \<in> set (successors g a).
             map_of g b \<noteq> None \<longrightarrow> b \<in> set seen \<union> set xs"
    and "a \<in> set (descendants g xs seen)" and "b \<in> set (successors g a)"
    and "map_of g b \<noteq> None"
  shows "b \<in> set (descendants g xs seen)"
  using assms
proof (induction g xs seen rule: descendants.induct)
  case (1 g seen)
  then show ?case by auto
next
  case (2 g y ys seen)
  show ?case
  proof (cases "y \<in> set seen \<or> map_of g y = None")
    case True
    then have eq: "descendants g (y # ys) seen = descendants g ys seen" by auto
    have inv: "\<forall>a \<in> set seen. \<forall>b \<in> set (successors g a).
            map_of g b \<noteq> None \<longrightarrow> b \<in> set seen \<union> set ys"
    proof (intro ballI impI)
      fix a b
      assume ab: "a \<in> set seen" "b \<in> set (successors g a)" "map_of g b \<noteq> None"
      with "2.prems"(1) have "b \<in> set seen \<union> set (y # ys)" by blast
      moreover from True ab(3) have "b = y \<Longrightarrow> b \<in> set seen" by auto
      ultimately show "b \<in> set seen \<union> set ys" by auto
    qed
    from "2.prems"(2) eq have "a \<in> set (descendants g ys seen)" by simp
    from "2.IH"(1) [OF True inv this "2.prems"(3) "2.prems"(4)] eq show ?thesis by simp
  next
    case False
    then have eq: "descendants g (y # ys) seen
        = descendants g (successors g y @ ys) (y # seen)" by auto
    have inv: "\<forall>a \<in> set (y # seen). \<forall>b \<in> set (successors g a).
            map_of g b \<noteq> None \<longrightarrow> b \<in> set (y # seen) \<union> set (successors g y @ ys)"
      using "2.prems"(1) by auto
    from "2.prems"(2) eq
    have "a \<in> set (descendants g (successors g y @ ys) (y # seen))" by simp
    from "2.IH"(2) [OF False inv this "2.prems"(3) "2.prems"(4)] eq show ?thesis by simp
  qed
qed

lemma descendants_sound:
  "set (descendants g xs seen) \<subseteq> set seen \<union> (rev_edges g)\<^sup>* `` set xs"
proof (induction g xs seen rule: descendants.induct)
  case (1 g seen)
  show ?case by simp
next
  case (2 g y ys seen)
  show ?case
  proof (cases "y \<in> set seen \<or> map_of g y = None")
    case True
    with 2 show ?thesis by auto
  next
    case False
    have "(rev_edges g)\<^sup>* `` set (successors g y) \<subseteq> (rev_edges g)\<^sup>* `` {y}"
      by (auto simp: rev_edges_def intro: converse_rtrancl_into_rtrancl)
    with 2 False show ?thesis by auto
  qed
qed

lemma descendants_complete:
  assumes "(i, d) \<in> (rev_edges g)\<^sup>+" and "map_of g d \<noteq> None"
  shows "d \<in> set (descendants g (successors g i) [])"
  using assms
proof (induction rule: trancl_induct)
  case (base b)
  then show ?case by (simp add: rev_edges_def descendants_stack)
next
  case (step b c)
  from step.hyps(2) have bc: "c \<in> set (successors g b)" by (simp add: rev_edges_def)
  then have "map_of g b \<noteq> None" by (cases "map_of g b") (simp_all add: successors_def)
  with step have "b \<in> set (descendants g (successors g i) [])" by simp
  from descendants_closed [OF _ this bc step.prems] show ?case by simp
qed

lemma descendants_only:
  assumes "d \<in> set (descendants g (successors g i) [])"
  shows "(i, d) \<in> (rev_edges g)\<^sup>+"
proof -
  from assms descendants_sound [of g "successors g i" "[]"]
  obtain s where "s \<in> set (successors g i)" and "(s, d) \<in> (rev_edges g)\<^sup>*" by auto
  then show ?thesis by (auto simp: rev_edges_def intro: rtrancl_into_trancl2)
qed


lemma Ready_ids_map_of:
  "map_of g k = Some n \<Longrightarrow> n_state n = Ready \<Longrightarrow> k \<in> set (Ready_ids g)"
  by (force simp: Ready_ids_def dest: map_of_SomeD)

lemma map_of_Mark_Ok:
  "map_of (Mark g i Ok) k =
     map_option ((if k \<in> set (successors g i) then decrement else (\<lambda>n. n)) \<circ>
                 (if k = i then (\<lambda>n. n\<lparr>n_state := Done\<rparr>) else (\<lambda>n. n))) (map_of g k)"
  by (simp add: map_of_update_nodes option.map_comp Let_def)

lemma map_of_Mark_Fail:
  "map_of (Mark g i Fail) k =
     map_option ((if k \<in> set (descendants g (successors g i) [])
                  then (\<lambda>n. n\<lparr>n_state := Skipped\<rparr>) else (\<lambda>n. n)) \<circ>
                 (if k = i then (\<lambda>n. n\<lparr>n_state := Failed\<rparr>) else (\<lambda>n. n))) (map_of g k)"
  by (simp add: map_of_update_nodes option.map_comp Let_def)

lemma Mark_Ok_done:
  "state_of g i = Some Running \<Longrightarrow> i \<notin> set (successors g i) \<Longrightarrow>
   state_of (Mark g i Ok) i = Some Done"
  by (auto simp: state_of_def map_of_Mark_Ok simp del: Mark.simps)

lemma Mark_Ok_successor:
  assumes "s \<in> set (successors g i)" and "map_of g s = Some n"
  shows "count_of (Mark g i Ok) s = Some (n_count n - 1)"
    and "n_count n - 1 = 0 \<Longrightarrow> state_of (Mark g i Ok) s = Some Ready"
    and "n_count n - 1 = 0 \<Longrightarrow> s \<in> set (Ready_ids (Mark g i Ok))"
    and "n_count n - 1 \<noteq> 0 \<Longrightarrow> s \<noteq> i \<Longrightarrow> state_of (Mark g i Ok) s = Some (n_state n)"
proof -
  show "count_of (Mark g i Ok) s = Some (n_count n - 1)"
    using assms by (simp add: count_of_def map_of_Mark_Ok decrement_def Let_def del: Mark.simps)
  show r: "n_count n - 1 = 0 \<Longrightarrow> state_of (Mark g i Ok) s = Some Ready"
    using assms by (simp add: state_of_def map_of_Mark_Ok decrement_def Let_def del: Mark.simps)
  show "n_count n - 1 = 0 \<Longrightarrow> s \<in> set (Ready_ids (Mark g i Ok))"
  proof -
    assume "n_count n - 1 = 0"
    from r [OF this] obtain n' where "map_of (Mark g i Ok) s = Some n'" and "n_state n' = Ready"
      by (auto simp: state_of_def simp del: Mark.simps)
    then show ?thesis by (rule Ready_ids_map_of)
  qed
  show "n_count n - 1 \<noteq> 0 \<Longrightarrow> s \<noteq> i \<Longrightarrow> state_of (Mark g i Ok) s = Some (n_state n)"
    using assms by (simp add: state_of_def map_of_Mark_Ok decrement_def Let_def del: Mark.simps)
qed

lemma Mark_Ok_others:
  assumes "k \<notin> set (successors g i)"
  shows "count_of (Mark g i Ok) k = count_of g k"
    and "k \<noteq> i \<Longrightarrow> state_of (Mark g i Ok) k = state_of g k"
  using assms
  by (simp_all add: count_of_def state_of_def map_of_Mark_Ok option.map_comp comp_def
      option.map_ident del: Mark.simps)

lemma Mark_Fail_descendant:
  assumes "(i, d) \<in> (rev_edges g)\<^sup>+" and "map_of g d \<noteq> None"
  shows "state_of (Mark g i Fail) d = Some Skipped"
  using descendants_complete [OF assms] assms(2)
  by (auto simp: state_of_def map_of_Mark_Fail simp del: Mark.simps)

lemma Mark_Fail_others:
  assumes "(i, d) \<notin> (rev_edges g)\<^sup>+"
  shows "d \<noteq> i \<Longrightarrow> state_of (Mark g i Fail) d = state_of g d"
    and "state_of g i = Some Running \<Longrightarrow> d = i \<Longrightarrow> state_of (Mark g i Fail) d = Some Failed"
proof -
  from assms descendants_only [of d g i]
  have nd: "d \<notin> set (descendants g (successors g i) [])" by blast
  then show "d \<noteq> i \<Longrightarrow> state_of (Mark g i Fail) d = state_of g d"
    by (cases "map_of g d") (simp_all add: state_of_def map_of_Mark_Fail del: Mark.simps)
  from nd show "state_of g i = Some Running \<Longrightarrow> d = i \<Longrightarrow>
      state_of (Mark g i Fail) d = Some Failed"
    by (auto simp: state_of_def map_of_Mark_Fail simp del: Mark.simps)
qed

lemma Mark_Fail_count: "count_of (Mark g i Fail) k = count_of g k"
  by (simp add: count_of_def map_of_Mark_Fail option.map_comp comp_def del: Mark.simps)

text \<open>
  Claim C2, on the graph modelled from the specification. \<^verbatim>\<open>Mark\<close> takes a resource id and
  an outcome, \<open>Ok\<close> or \<open>Fail\<close>. For a running node: on \<open>Ok\<close> the node becomes done (in a
  graph where it is not its own successor), the outstanding-dependency count of each
  reverse-edge successor goes down by one, a successor whose count reaches 0 becomes ready
  and is listed by \<^verbatim>\<open>Ready\<close>, and nothing else changes; on \<open>Fail\<close> every transitive
  descendant in the graph becomes skipped, the node itself becomes failed, and no other
  node and no count changes.
\<close>

theorem Mark_outcomes:
  assumes "state_of g i = Some Running"
  shows "(i \<notin> set (successors g i) \<longrightarrow> state_of (Mark g i Ok) i = Some Done) \<and>
    (\<forall>s n. s \<in> set (successors g i) \<and> map_of g s = Some n \<longrightarrow>
       count_of (Mark g i Ok) s = Some (n_count n - 1) \<and>
       (n_count n - 1 = 0 \<longrightarrow>
          state_of (Mark g i Ok) s = Some Ready \<and> s \<in> set (Ready_ids (Mark g i Ok))) \<and>
       (n_count n - 1 \<noteq> 0 \<and> s \<noteq> i \<longrightarrow> state_of (Mark g i Ok) s = Some (n_state n))) \<and>
    (\<forall>k. k \<notin> set (successors g i) \<longrightarrow>
       count_of (Mark g i Ok) k = count_of g k \<and>
       (k \<noteq> i \<longrightarrow> state_of (Mark g i Ok) k = state_of g k)) \<and>
    (\<forall>d. (i, d) \<in> (rev_edges g)\<^sup>+ \<and> map_of g d \<noteq> None \<longrightarrow>
       state_of (Mark g i Fail) d = Some Skipped) \<and>
    (\<forall>d. (i, d) \<notin> (rev_edges g)\<^sup>+ \<longrightarrow>
       state_of (Mark g i Fail) d = (if d = i then Some Failed else state_of g d)) \<and>
    (\<forall>k. count_of (Mark g i Fail) k = count_of g k)"
  using assms Mark_Ok_done [of g i] Mark_Ok_successor [of _ g i] Mark_Ok_others [of _ g i]
    Mark_Fail_descendant [of i _ g] Mark_Fail_others [of i _ g] Mark_Fail_count [of g i]
  by (simp del: Mark.simps)


theorem Mark_outcomes_witness:
  "state_of chain_graph 1 = Some Running \<and>
   state_of (Mark chain_graph 1 Ok) 1 = Some Done \<and>
   count_of (Mark chain_graph 1 Ok) 2 = Some 0 \<and>
   2 \<in> set (Ready_ids (Mark chain_graph 1 Ok)) \<and>
   state_of (Mark chain_graph 1 Ok) 3 = Some Waiting \<and>
   (1, 3) \<in> (rev_edges chain_graph)\<^sup>+ \<and>
   state_of (Mark chain_graph 1 Fail) 2 = Some Skipped \<and>
   state_of (Mark chain_graph 1 Fail) 3 = Some Skipped \<and>
   state_of (Mark chain_graph 1 Fail) 1 = Some Failed \<and>
   state_of (Mark chain_graph 1 Fail) 4 = Some Ready"
proof -
  have run: "state_of chain_graph 1 = Some Running"
    by (simp add: state_of_def chain_graph_def)
  have s1: "successors chain_graph 1 = [2]" and s2: "successors chain_graph 2 = [3]"
    by (simp_all add: successors_def chain_graph_def)
  have n2: "map_of chain_graph 2
      = Some \<lparr>n_resource = (), n_count = 1, n_rdeps = [3], n_state = Waiting\<rparr>"
    and n3: "map_of chain_graph 3 \<noteq> None"
    and st3: "state_of chain_graph 3 = Some Waiting"
    and st4: "state_of chain_graph 4 = Some Ready"
    by (simp_all add: chain_graph_def state_of_def)
  have e12: "(1, 2) \<in> rev_edges chain_graph" and e23: "(2, 3) \<in> rev_edges chain_graph"
    by (simp_all add: rev_edges_def s1 s2)
  then have e13: "(1, 3) \<in> (rev_edges chain_graph)\<^sup>+" by (rule trancl_into_trancl2 [OF _ r_into_trancl])
  from e12 have e12': "(1, 2) \<in> (rev_edges chain_graph)\<^sup>+" by (rule r_into_trancl)
  have into: "(z, k) \<in> rev_edges chain_graph \<Longrightarrow> k = 2 \<or> k = 3" for z k
    by (auto simp: rev_edges_def successors_def chain_graph_def split: if_splits)
  have reach: "k = 2 \<or> k = 3" if "(z, k) \<in> (rev_edges chain_graph)\<^sup>+" for z k
    using that by (rule tranclE) (auto dest: into)
  have not1: "(1, 1) \<notin> (rev_edges chain_graph)\<^sup>+" and not4: "(1, 4) \<notin> (rev_edges chain_graph)\<^sup>+"
    using reach [of 1 1] reach [of 1 4] by auto
  note t = Mark_outcomes [OF run]
  from t s1 have "state_of (Mark chain_graph 1 Ok) 1 = Some Done" by simp
  moreover from t s1 n2 have "count_of (Mark chain_graph 1 Ok) 2 = Some 0"
    and "2 \<in> set (Ready_ids (Mark chain_graph 1 Ok))" by simp_all
  moreover from t s1 st3 have "state_of (Mark chain_graph 1 Ok) 3 = Some Waiting" by simp
  moreover from t e12' n2 have "state_of (Mark chain_graph 1 Fail) 2 = Some Skipped" by simp
  moreover from t e13 n3 have "state_of (Mark chain_graph 1 Fail) 3 = Some Skipped" by blast
  moreover from t not1 have "state_of (Mark chain_graph 1 Fail) 1 = Some Failed" by simp
  moreover from t not4 st4 have "state_of (Mark chain_graph 1 Fail) 4 = Some Ready" by simp
  ultimately show ?thesis using run e13 by blast
qed


end
